theory Spec2Isabelle
  imports Complex_Main "HOL-Library.AList"
begin

section \<open>Data model (types.ts, constants.ts)\<close>

text \<open>
  A shallow embedding of the pose editor: the keypoint record, the static tables of
  \<^verbatim>\<open>constants.ts\<close> and the handlers of the \<^verbatim>\<open>App\<close> component. JavaScript numbers
  that hold coordinates and distances are modelled as \<^typ>\<open>real\<close>; joint ids are
  \<^typ>\<open>nat\<close>. The field \<^verbatim>\<open>id\<close> is written \<open>id'\<close>.
\<close>

record keypoint =
  id' :: nat
  name :: string
  x :: real
  y :: real
  visible :: bool
  locked :: bool
  anchored :: "bool option"
  color :: string
  rgb :: "nat \<times> nat \<times> nat"

record Size =
  width :: real
  height :: real

text \<open>
  \<^verbatim>\<open>Record<string, number>\<close> with keys \<^verbatim>\<open>"id1-id2"\<close>: an association list in
  insertion order, as \<^verbatim>\<open>Object.keys\<close> enumerates it. A key is kept as the pair of
  numbers that \<^verbatim>\<open>key.split('-').map(Number)\<close> reads back from it. Writing a key is
  \<^const>\<open>AList.update\<close> (an existing key keeps its place, a new one goes last).
\<close>

type_synonym constraints = "((nat \<times> nat) \<times> real) list"

text \<open>\<^verbatim>\<open>interface HistoryState { keypoints; constraints }\<close>, as a pair.\<close>

type_synonym HistoryState = "keypoint list \<times> constraints"

record History =
  past :: "HistoryState list"
  future :: "HistoryState list"

text \<open>\<^verbatim>\<open>'translate' | 'rotate'\<close>; the second is written \<open>rotate'\<close>.\<close>

datatype JointMode = translate | rotate'

record App =
  size' :: Size
  bgImage :: "string option"
  lockedJointMode :: JointMode
  isProcessing :: bool
  isTransforming :: bool
  history :: History
  constraints :: constraints
  keypoints :: "keypoint list"
  transformBaseRef :: "HistoryState option"

definition KEYPOINT_NAMES :: "string list" where
  "KEYPOINT_NAMES =
    [''Nose'', ''Neck'', ''R_Shoulder'', ''R_Elbow'', ''R_Wrist'',
     ''L_Shoulder'', ''L_Elbow'', ''L_Wrist'', ''R_Hip'', ''R_Knee'',
     ''R_Ankle'', ''L_Hip'', ''L_Knee'', ''L_Ankle'', ''R_Eye'',
     ''L_Eye'', ''R_Ear'', ''L_Ear'']"

definition JOINT_COLORS_RGB :: "(nat \<times> nat \<times> nat) list" where
  "JOINT_COLORS_RGB =
    [(255, 0, 0), (255, 85, 0), (255, 170, 0), (255, 255, 0), (170, 255, 0),
     (85, 255, 0), (0, 255, 0), (0, 255, 85), (0, 255, 170), (0, 255, 255),
     (0, 170, 255), (0, 85, 255), (0, 0, 255), (85, 0, 255), (170, 0, 255),
     (255, 0, 255), (255, 0, 170), (255, 0, 85)]"

definition hexDigit :: "nat \<Rightarrow> char" where
  "hexDigit n = ''0123456789abcdef'' ! n"

text \<open>\<^verbatim>\<open>x.toString(16)\<close> on a natural number.\<close>

function toString16 :: "nat \<Rightarrow> string" where
  "toString16 n =
     (if n < 16 then [hexDigit n] else toString16 (n div 16) @ [hexDigit (n mod 16)])"
  by pat_completeness auto
termination
  by (relation "measure (\<lambda>n. n)") auto

definition rgbToHex :: "nat \<times> nat \<times> nat \<Rightarrow> string" where
  "rgbToHex c =
     (case c of (r, g, b) \<Rightarrow>
        ''#'' @ concat (map (\<lambda>v. let hex = toString16 v
                                  in if length hex = 1 then ''0'' @ hex else hex) [r, g, b]))"

definition INITIAL_KEYPOINTS :: "keypoint list" where
  "INITIAL_KEYPOINTS =
     map (\<lambda>(nm, i).
            \<lparr> id' = i, name = nm, x = 0, y = 0, visible = True, locked = False,
              anchored = None, color = rgbToHex (JOINT_COLORS_RGB ! i),
              rgb = JOINT_COLORS_RGB ! i \<rparr>)
         (zip KEYPOINT_NAMES [0 ..< length KEYPOINT_NAMES])"

text \<open>\<^verbatim>\<open>POSE_HIERARCHY\<close>: parent to children; \<open>None\<close> is a missing key.\<close>

definition POSE_HIERARCHY :: "nat \<Rightarrow> nat list option" where
  "POSE_HIERARCHY p =
     (if p = 1 then Some [0, 2, 5, 8, 11]
      else if p = 0 then Some [14, 15]
      else if p = 2 then Some [3]
      else if p = 3 then Some [4]
      else if p = 5 then Some [6]
      else if p = 6 then Some [7]
      else if p = 8 then Some [9]
      else if p = 9 then Some [10]
      else if p = 11 then Some [12]
      else if p = 12 then Some [13]
      else if p = 14 then Some [16]
      else if p = 15 then Some [17]
      else None)"

definition DEFAULT_POSE_COORDS :: "(real \<times> real) list" where
  "DEFAULT_POSE_COORDS =
    [(256, 55), (256, 115), (206, 115), (186, 195), (166, 255), (306, 115),
     (326, 195), (346, 255), (226, 255), (226, 355), (226, 455), (286, 255),
     (286, 355), (286, 455), (246, 45), (266, 45), (226, 50), (286, 50)]"

section \<open>History (recordHistory, undo, redo)\<close>

definition recordHistory :: "App \<Rightarrow> App" where
  "recordHistory st =
     st\<lparr>history := \<lparr>past = past (history st) @ [(keypoints st, constraints st)],
                      future = []\<rparr>\<rparr>"

definition undo :: "App \<Rightarrow> App" where
  "undo st =
     (let curr = history st in
      if length (past curr) = 0 then st
      else
        let previous = last (past curr);
            newPast = butlast (past curr)
        in st\<lparr>keypoints := fst previous,
              constraints := snd previous,
              history := \<lparr>past = newPast,
                           future = (keypoints st, constraints st) # future curr\<rparr>\<rparr>)"

definition redo :: "App \<Rightarrow> App" where
  "redo st =
     (let curr = history st in
      if length (future curr) = 0 then st
      else
        let next = hd (future curr);
            newFuture = tl (future curr)
        in st\<lparr>keypoints := fst next,
              constraints := snd next,
              history := \<lparr>past = past curr @ [(keypoints st, constraints st)],
                           future = newFuture\<rparr>\<rparr>)"

text \<open>
  The state a recorded gesture leaves: the handlers below call
  \<^verbatim>\<open>setKeypoints\<close> and \<^verbatim>\<open>setConstraints\<close>; \<open>setSnapshot\<close> is both at once.
\<close>

definition setSnapshot :: "HistoryState \<Rightarrow> App \<Rightarrow> App" where
  "setSnapshot s st = st\<lparr>keypoints := fst s, constraints := snd s\<rparr>"

definition snapshot :: "App \<Rightarrow> HistoryState" where
  "snapshot st = (keypoints st, constraints st)"

section \<open>Pose generation (generateFittedKeypoints)\<close>

text \<open>\<^verbatim>\<open>Math.min(...vs)\<close> and \<^verbatim>\<open>Math.max(...vs)\<close> on a non-empty array.\<close>

definition minOf :: "real list \<Rightarrow> real" where
  "minOf vs = foldl min (hd vs) (tl vs)"

definition maxOf :: "real list \<Rightarrow> real" where
  "maxOf vs = foldl max (hd vs) (tl vs)"

definition generateFittedKeypoints :: "real \<Rightarrow> real \<Rightarrow> keypoint list" where
  "generateFittedKeypoints targetWidth targetHeight =
     (let ys = map snd DEFAULT_POSE_COORDS;
          xs = map fst DEFAULT_POSE_COORDS;
          minY = minOf ys; maxY = maxOf ys;
          minX = minOf xs; maxX = maxOf xs;
          refHeight = maxY - minY;
          refCenterY = (minY + maxY) / 2;
          refCenterX = (minX + maxX) / 2;
          targetPoseHeight = targetHeight * 0.75;
          scaleFactor = targetPoseHeight / refHeight
      in map (\<lambda>(kp, i).
                let def = DEFAULT_POSE_COORDS ! i
                in kp\<lparr>x := (fst def - refCenterX) * scaleFactor + targetWidth / 2,
                      y := (snd def - refCenterY) * scaleFactor + targetHeight / 2\<rparr>)
             (zip INITIAL_KEYPOINTS [0 ..< length INITIAL_KEYPOINTS]))"

section \<open>Drag engine (handleDragStart, handleKeypointMove, handleSkeletonDrag)\<close>

definition handleDragStart :: "App \<Rightarrow> App" where
  "handleDragStart st = recordHistory st"

text \<open>
  The body of \<^verbatim>\<open>Object.keys(constraints).forEach\<close> inside the search loop: the pair
  is (\<open>connectedIds\<close>, \<open>queue\<close>); a \<^verbatim>\<open>Set\<close> is the list of its members in
  insertion order.
\<close>

definition visitKey :: "nat \<Rightarrow> nat list \<times> nat list \<Rightarrow> nat \<times> nat \<Rightarrow> nat list \<times> nat list" where
  "visitKey currId s key =
     (case s of (connectedIds, queue) \<Rightarrow>
      case key of (p1, p2) \<Rightarrow>
        if p1 = currId \<or> p2 = currId then
          let neighbor = (if p1 = currId then p2 else p1)
          in if neighbor \<notin> set connectedIds
             then (connectedIds @ [neighbor], queue @ [neighbor])
             else (connectedIds, queue)
        else (connectedIds, queue))"

text \<open>\<^verbatim>\<open>while (head < queue.length) { currId = queue[head++]; ... }\<close>\<close>

function connectedLoop :: "constraints \<Rightarrow> nat list \<Rightarrow> nat list \<Rightarrow> nat \<Rightarrow> nat list" where
  "connectedLoop cs connectedIds queue head =
     (if head < length queue then
        (case foldl (visitKey (queue ! head)) (connectedIds, queue) (map fst cs) of
           (connectedIds', queue') \<Rightarrow> connectedLoop cs connectedIds' queue' (Suc head))
      else connectedIds)"
  by pat_completeness auto
termination
proof (relation "measure (\<lambda>(cs, c, q, h).
         2 * card ((fst ` fst ` set cs \<union> snd ` fst ` set cs) - set c) + (length q - h))",
       goal_cases)
  case 1
  show ?case by simp
next
  case (2 cs c q h c' q')
  then have h: "h < length q"
    and cq: "foldl (visitKey (q ! h)) (c, q) (map fst cs) = (c', q')"
    by simp_all
  have grow: "\<exists>ns. c2 = c1 @ ns \<and> q2 = q1 @ ns \<and> distinct ns \<and> set ns \<inter> set c1 = {}
                \<and> set ns \<subseteq> fst ` set ks \<union> snd ` set ks"
    if "foldl (visitKey u) (c1, q1) ks = (c2, q2)" for u c1 q1 c2 q2 ks
    using that
  proof (induction ks arbitrary: c1 q1)
    case Nil
    then show ?case by simp
  next
    case (Cons k ks)
    obtain m where m: "visitKey u (c1, q1) k = (c1 @ m, q1 @ m)"
      and m_props: "distinct m" "set m \<inter> set c1 = {}" "set m \<subseteq> {fst k, snd k}"
    proof (cases "visitKey u (c1, q1) k = (c1, q1)")
      case True
      show ?thesis by (rule that [of "[]"]) (simp_all add: True)
    next
      case False
      let ?n = "if fst k = u then snd k else fst k"
      from False have "visitKey u (c1, q1) k = (c1 @ [?n], q1 @ [?n]) \<and> ?n \<notin> set c1"
        by (cases k) (auto simp: visitKey_def Let_def split: if_splits)
      then show ?thesis by (intro that [of "[?n]"]) auto
    qed
    from Cons.prems m have "foldl (visitKey u) (c1 @ m, q1 @ m) ks = (c2, q2)"
      by simp
    from Cons.IH [OF this] obtain ns where ns: "c2 = (c1 @ m) @ ns" "q2 = (q1 @ m) @ ns"
      "distinct ns" "set ns \<inter> set (c1 @ m) = {}" "set ns \<subseteq> fst ` set ks \<union> snd ` set ks"
      by blast
    have "c2 = c1 @ (m @ ns)" "q2 = q1 @ (m @ ns)"
      using ns by simp_all
    moreover have "distinct (m @ ns)"
      using ns m_props by auto
    moreover have "set (m @ ns) \<inter> set c1 = {}"
      using ns m_props by auto
    moreover have "set (m @ ns) \<subseteq> fst ` set (k # ks) \<union> snd ` set (k # ks)"
      using ns m_props by auto
    ultimately show ?case by blast
  qed
  from grow [OF cq] obtain ns where ns: "c' = c @ ns" "q' = q @ ns" "distinct ns"
    "set ns \<inter> set c = {}" "set ns \<subseteq> fst ` set (map fst cs) \<union> snd ` set (map fst cs)"
    by blast
  let ?N = "fst ` fst ` set cs \<union> snd ` fst ` set cs"
  have fin: "finite (?N - set c)" by simp
  have sub: "set ns \<subseteq> ?N - set c"
    using ns by auto
  have "?N - set c' = (?N - set c) - set ns"
    using ns by auto
  then have "card (?N - set c') = card (?N - set c) - card (set ns)"
    using card_Diff_subset [of "set ns" "?N - set c"] sub by simp
  moreover have "card (set ns) = length ns"
    using ns by (simp add: distinct_card)
  moreover have "length ns \<le> card (?N - set c)"
    using card_mono [OF fin sub] ns by (simp add: distinct_card)
  ultimately show ?case
    using h ns by simp
qed

text \<open>One pass of \<^verbatim>\<open>activeConstraints.forEach\<close>: the triple is (sumX, sumY, count).\<close>

definition resolveStep ::
  "keypoint list \<Rightarrow> nat \<Rightarrow> real \<Rightarrow> real \<Rightarrow> real \<times> real \<times> nat \<Rightarrow> (nat \<times> nat) \<times> real
     \<Rightarrow> real \<times> real \<times> nat" where
  "resolveStep prev i tx ty acc entry =
     (case acc of (sumX, sumY, count) \<Rightarrow>
      case entry of ((p1, p2), targetDist) \<Rightarrow>
        let otherId = (if p1 = i then p2 else p1)
        in case find (\<lambda>k. id' k = otherId) prev of
             None \<Rightarrow> (sumX, sumY, count)
           | Some otherKp \<Rightarrow>
               let dx = tx - x otherKp;
                   dy = ty - y otherKp;
                   currentDist = sqrt (dx * dx + dy * dy)
               in if currentDist > 0 then
                    let scale = targetDist / currentDist;
                        constrainedX = x otherKp + dx * scale;
                        constrainedY = y otherKp + dy * scale
                    in (sumX + constrainedX, sumY + constrainedY, count + 1)
                  else (sumX, sumY, count))"

definition keypointMove ::
  "constraints \<Rightarrow> JointMode \<Rightarrow> nat \<Rightarrow> real \<Rightarrow> real \<Rightarrow> keypoint list \<Rightarrow> keypoint list" where
  "keypointMove cs mode i tx ty prev =
     (case find (\<lambda>k. id' k = i) prev of
        None \<Rightarrow> prev
      | Some sourceKp \<Rightarrow>
          let connectedIds = connectedLoop cs [i] [i] 0 in
          if mode = translate then
            let dx = tx - x sourceKp;
                dy = ty - y sourceKp
            in map (\<lambda>kp. if id' kp \<in> set connectedIds
                          then kp\<lparr>x := x kp + dx, y := y kp + dy\<rparr> else kp) prev
          else
            let activeConstraints = filter (\<lambda>(key, d). fst key = i \<or> snd key = i) cs;
                nxt =
                  (if length activeConstraints > 0 then
                     (case foldl (resolveStep prev i tx ty) (0, 0, 0) activeConstraints of
                        (sumX, sumY, count) \<Rightarrow>
                          if count > 0 then (sumX / real count, sumY / real count)
                          else (tx, ty))
                   else (tx, ty))
            in map (\<lambda>kp. if id' kp = i then kp\<lparr>x := fst nxt, y := snd nxt\<rparr> else kp) prev)"

definition handleKeypointMove :: "nat \<Rightarrow> real \<Rightarrow> real \<Rightarrow> App \<Rightarrow> App" where
  "handleKeypointMove i tx ty st =
     st\<lparr>keypoints := keypointMove (constraints st) (lockedJointMode st) i tx ty (keypoints st)\<rparr>"

definition handleSkeletonDrag :: "real \<Rightarrow> real \<Rightarrow> App \<Rightarrow> App" where
  "handleSkeletonDrag dx dy st =
     st\<lparr>keypoints := map (\<lambda>kp. kp\<lparr>x := x kp + dx, y := y kp + dy\<rparr>) (keypoints st)\<rparr>"

section \<open>Constraint, visibility, lock and anchor toggles\<close>

text \<open>
  \<^verbatim>\<open>[p1, p2].sort((a, b) => a - b).join('-')\<close> is the key (min, max); \<^verbatim>\<open>prev[key]\<close> is
  truthy when the key is present with a non-zero distance.
\<close>

definition handleToggleConstraint :: "nat \<Rightarrow> nat \<Rightarrow> App \<Rightarrow> App" where
  "handleToggleConstraint p1 p2 st =
     (let key = (min p1 p2, max p1 p2);
          prev = constraints st;
          truthy = (case map_of prev key of None \<Rightarrow> False | Some d \<Rightarrow> d \<noteq> 0)
      in (recordHistory st)\<lparr>constraints :=
           (if truthy then AList.delete key prev
            else
              (case (find (\<lambda>k. id' k = p1) (keypoints st),
                     find (\<lambda>k. id' k = p2) (keypoints st)) of
                 (Some kp1, Some kp2) \<Rightarrow>
                   let dx = x kp1 - x kp2;
                       dy = y kp1 - y kp2;
                       dist = sqrt (dx * dx + dy * dy)
                   in AList.update key dist prev
               | _ \<Rightarrow> prev))\<rparr>)"

text \<open>The body of \<^verbatim>\<open>children.forEach\<close>: the pair is (\<open>idsToUpdate\<close>, \<open>queue\<close>).\<close>

definition visitChild :: "nat list \<times> nat list \<Rightarrow> nat \<Rightarrow> nat list \<times> nat list" where
  "visitChild s childId =
     (case s of (idsToUpdate, queue) \<Rightarrow>
        if childId \<notin> set idsToUpdate
        then (idsToUpdate @ [childId], queue @ [childId])
        else (idsToUpdate, queue))"

text \<open>\<^verbatim>\<open>while (queue.length > 0) { currentId = queue.shift(); ... }\<close>\<close>

function cascadeLoop :: "nat list \<Rightarrow> nat list \<Rightarrow> nat list" where
  "cascadeLoop idsToUpdate queue =
     (case queue of
        [] \<Rightarrow> idsToUpdate
      | currentId # rest \<Rightarrow>
          (case POSE_HIERARCHY currentId of
             None \<Rightarrow> cascadeLoop idsToUpdate rest
           | Some children \<Rightarrow>
               (case foldl visitChild (idsToUpdate, rest) children of
                  (idsToUpdate', queue') \<Rightarrow> cascadeLoop idsToUpdate' queue')))"
  by pat_completeness auto
termination
proof (relation "measure (\<lambda>(c, q). 2 * card ({..<18} - set c) + length q)", goal_cases)
  case 1
  show ?case by simp
next
  case (2 c q u rest)
  then show ?case by simp
next
  case (3 c q u rest children c' q')
  then have cq: "foldl visitChild (c, rest) children = (c', q')"
    and q: "q = u # rest" and ch: "POSE_HIERARCHY u = Some children"
    by simp_all
  have grow: "\<exists>ns. c2 = c1 @ ns \<and> q2 = q1 @ ns \<and> distinct ns \<and> set ns \<inter> set c1 = {}
                \<and> set ns \<subseteq> set ks"
    if "foldl visitChild (c1, q1) ks = (c2, q2)" for c1 q1 c2 q2 ks
    using that
  proof (induction ks arbitrary: c1 q1)
    case Nil
    then show ?case by simp
  next
    case (Cons k ks)
    obtain m where m: "visitChild (c1, q1) k = (c1 @ m, q1 @ m)"
      and m_props: "distinct m" "set m \<inter> set c1 = {}" "set m \<subseteq> {k}"
    proof (cases "k \<in> set c1")
      case True
      show ?thesis by (rule that [of "[]"]) (simp_all add: True visitChild_def)
    next
      case False
      show ?thesis by (rule that [of "[k]"]) (simp_all add: False visitChild_def)
    qed
    from Cons.prems m have "foldl visitChild (c1 @ m, q1 @ m) ks = (c2, q2)"
      by simp
    from Cons.IH [OF this] obtain ns where ns: "c2 = (c1 @ m) @ ns" "q2 = (q1 @ m) @ ns"
      "distinct ns" "set ns \<inter> set (c1 @ m) = {}" "set ns \<subseteq> set ks"
      by blast
    have "c2 = c1 @ (m @ ns)" "q2 = q1 @ (m @ ns)"
      using ns by simp_all
    moreover have "distinct (m @ ns)"
      using ns m_props by auto
    moreover have "set (m @ ns) \<inter> set c1 = {}"
      using ns m_props by auto
    moreover have "set (m @ ns) \<subseteq> set (k # ks)"
      using ns m_props by auto
    ultimately show ?case by blast
  qed
  from grow [OF cq] obtain ns where ns: "c' = c @ ns" "q' = rest @ ns" "distinct ns"
    "set ns \<inter> set c = {}" "set ns \<subseteq> set children"
    by blast
  have "set children \<subseteq> {..<18}"
    using ch by (auto simp: POSE_HIERARCHY_def split: if_splits)
  then have sub: "set ns \<subseteq> {..<18} - set c"
    using ns by auto
  have "{..<18} - set c' = ({..<18} - set c) - set ns"
    using ns by auto
  then have "card ({..<18::nat} - set c') = card ({..<18} - set c) - card (set ns)"
    using card_Diff_subset [of "set ns" "{..<18} - set c"] sub by simp
  moreover have "card (set ns) = length ns"
    using ns by (simp add: distinct_card)
  moreover have "length ns \<le> card ({..<18::nat} - set c)"
    using card_mono [OF _ sub] ns by (simp add: distinct_card)
  ultimately show ?case
    using q ns by simp
qed

definition toggleVisibility :: "nat \<Rightarrow> keypoint list \<Rightarrow> keypoint list" where
  "toggleVisibility i prev =
     (case find (\<lambda>k. id' k = i) prev of
        None \<Rightarrow> prev
      | Some target \<Rightarrow>
          let newVisible = \<not> visible target;
              idsToUpdate = (if \<not> newVisible then cascadeLoop [i] [i] else [i])
          in map (\<lambda>kp. if id' kp \<in> set idsToUpdate
                        then kp\<lparr>visible := (if newVisible then id' kp = i else False)\<rparr>
                        else kp) prev)"

definition handleToggleVisibility :: "nat \<Rightarrow> App \<Rightarrow> App" where
  "handleToggleVisibility i st =
     (recordHistory st)\<lparr>keypoints := toggleVisibility i (keypoints st)\<rparr>"

definition handleToggleLock :: "nat \<Rightarrow> App \<Rightarrow> App" where
  "handleToggleLock i st =
     (recordHistory st)\<lparr>keypoints :=
        map (\<lambda>kp. if id' kp = i then kp\<lparr>locked := \<not> locked kp\<rparr> else kp) (keypoints st)\<rparr>"

text \<open>\<^verbatim>\<open>!kp.anchored\<close>: an absent flag is falsy.\<close>

definition handleToggleAnchor :: "nat \<Rightarrow> App \<Rightarrow> App" where
  "handleToggleAnchor i st =
     (recordHistory st)\<lparr>keypoints :=
        map (\<lambda>kp. if id' kp = i then kp\<lparr>anchored := Some (anchored kp \<noteq> Some True)\<rparr> else kp)
            (keypoints st)\<rparr>"

definition handleToggleAllLock :: "App \<Rightarrow> App" where
  "handleToggleAllLock st =
     (let prev = keypoints st;
          allLocked = list_all locked prev
      in (recordHistory st)\<lparr>keypoints := map (\<lambda>kp. kp\<lparr>locked := \<not> allLocked\<rparr>) prev\<rparr>)"

definition handleToggleAllVisibility :: "App \<Rightarrow> App" where
  "handleToggleAllVisibility st =
     (let prev = keypoints st;
          allVisible = list_all visible prev
      in (recordHistory st)\<lparr>keypoints := map (\<lambda>kp. kp\<lparr>visible := \<not> allVisible\<rparr>) prev\<rparr>)"

definition handleReset :: "App \<Rightarrow> App" where
  "handleReset st =
     (recordHistory st)\<lparr>constraints := [],
        keypoints := generateFittedKeypoints (width (size' st)) (height (size' st))\<rparr>"

section \<open>Import and pose detection (handleImportJson, handleAutoDetect)\<close>

text \<open>
  The parsed pose file, as far as the handler reads it: \<open>people = None\<close> is a missing
  or non-array \<^verbatim>\<open>people\<close>, \<open>pose_keypoints_2d = None\<close> a missing or non-array field. A
  canvas size is taken when both numbers are truthy (non-zero).
\<close>

record Person =
  pose_keypoints_2d :: "real list option"

record PoseFile =
  people :: "Person list option"
  canvas_config :: "Size option"

text \<open>
  What \<^verbatim>\<open>alert\<close> shows:
  \<open>InvalidFormat\<close> "Invalid OpenPose JSON format: 'people' array missing.",
  \<open>NoPeople\<close> "No people found in JSON.", \<open>NoKeypoints\<close> "No 2D keypoints found.",
  \<open>ParseError\<close> "Error parsing JSON file.",
  \<open>NoValidPose\<close> "Could not detect a valid pose. Please try a clearer image.",
  \<open>DetectError\<close> "Error detecting pose."
\<close>

datatype Alert = InvalidFormat | NoPeople | NoKeypoints | ParseError | NoValidPose | DetectError

definition getKeypoint :: "real list \<Rightarrow> nat \<Rightarrow> (real \<times> real \<times> real) option" where
  "getKeypoint kpArray idx =
     (let base = idx * 3
      in if base + 2 \<ge> length kpArray then None
         else Some (kpArray ! base, kpArray ! (base + 1), kpArray ! (base + 2)))"

definition mapping :: "nat list" where
  "mapping = [0, 1, 2, 3, 4, 5, 6, 7, 9, 10, 11, 12, 13, 14, 15, 16, 17, 18]"

text \<open>
  The two \<^verbatim>\<open>newKeypoints.map((kp, i) => ...)\<close> branches. The index \<open>i\<close> stays below
  18 on the 18-joint array the editor holds; beyond it the source would read
  \<^verbatim>\<open>mapping[i]\<close> out of range, which the model leaves to \<open>mapping ! i\<close>.
\<close>

definition importKeypoints :: "real list \<Rightarrow> keypoint list \<Rightarrow> keypoint list" where
  "importKeypoints kpArray kps =
     (if length kpArray \<ge> 75 then
        map (\<lambda>(kp, i).
               let srcIdx = mapping ! i
               in case getKeypoint kpArray srcIdx of
                    Some (vx, vy, vc) \<Rightarrow> kp\<lparr>x := vx, y := vy, visible := (vx \<noteq> 0 \<or> vy \<noteq> 0)\<rparr>
                  | None \<Rightarrow> kp)
            (zip kps [0 ..< length kps])
      else
        map (\<lambda>(kp, i).
               case getKeypoint kpArray i of
                 Some (vx, vy, vc) \<Rightarrow> kp\<lparr>x := vx, y := vy, visible := (vx \<noteq> 0 \<or> vy \<noteq> 0)\<rparr>
               | None \<Rightarrow> kp)
            (zip kps [0 ..< length kps]))"

text \<open>
  The \<^verbatim>\<open>reader.onload\<close> callback on the file's parsed content; \<open>None\<close> is a
  \<^verbatim>\<open>JSON.parse\<close> that throws. The result is the new state and the alert shown, if any.
\<close>

definition handleImportJson :: "PoseFile option \<Rightarrow> App \<Rightarrow> App \<times> Alert option" where
  "handleImportJson parsed st =
     (case parsed of
        None \<Rightarrow> (st, Some ParseError)
      | Some data \<Rightarrow>
          (case people data of
             None \<Rightarrow> (st, Some InvalidFormat)
           | Some ps \<Rightarrow>
               if length ps = 0 then (st, Some NoPeople)
               else
                 let st1 = recordHistory st;
                     st2 = (case canvas_config data of
                              None \<Rightarrow> st1
                            | Some c \<Rightarrow>
                                if width c \<noteq> 0 \<and> height c \<noteq> 0
                                then st1\<lparr>size' := \<lparr>width = width c, height = height c\<rparr>\<rparr>
                                else st1);
                     person = hd ps
                 in case pose_keypoints_2d person of
                      None \<Rightarrow> (st2, Some NoKeypoints)
                    | Some kpArray \<Rightarrow>
                        (st2\<lparr>keypoints := importKeypoints kpArray (keypoints st),
                             constraints := []\<rparr>, None)))"

text \<open>
  What \<^verbatim>\<open>await detectPose(...)\<close> does: it returns an array of points or \<^verbatim>\<open>null\<close>, or it
  throws.
\<close>

datatype DetectOutcome = Returned "(real \<times> real) list option" | Threw

definition handleAutoDetect :: "DetectOutcome \<Rightarrow> App \<Rightarrow> App \<times> Alert option" where
  "handleAutoDetect outcome st =
     (if bgImage st = None \<or> bgImage st = Some [] then (st, None)
      else
        let st1 = (recordHistory st)\<lparr>isProcessing := True, constraints := []\<rparr>
        in case outcome of
             Returned (Some detectedPoints) \<Rightarrow>
               if length detectedPoints = 18 then
                 (st1\<lparr>keypoints :=
                        map (\<lambda>(kp, i). kp\<lparr>x := fst (detectedPoints ! i),
                                            y := snd (detectedPoints ! i),
                                            visible := True\<rparr>)
                            (zip (keypoints st1) [0 ..< length (keypoints st1)]),
                      isProcessing := False\<rparr>, None)
               else (st1\<lparr>isProcessing := False\<rparr>, Some NoValidPose)
           | Returned None \<Rightarrow> (st1\<lparr>isProcessing := False\<rparr>, Some NoValidPose)
           | Threw \<Rightarrow> (st1\<lparr>isProcessing := False\<rparr>, Some DetectError))"

section \<open>Transform engine\<close>

text \<open>
  \<^verbatim>\<open>getPoseCenter\<close>: the bounds start at \<^verbatim>\<open>Infinity\<close> and \<^verbatim>\<open>-Infinity\<close>, the units of
  \<^verbatim>\<open>Math.min\<close> and \<^verbatim>\<open>Math.max\<close>, so over a non-empty list of visible joints the loop is
  the minimum and the maximum of the list; \<open>None\<close> is \<^verbatim>\<open>null\<close>.
\<close>

definition getPoseCenter :: "keypoint list \<Rightarrow> (real \<times> real) option" where
  "getPoseCenter kps =
     (let vis = filter visible kps
      in if length vis = 0 then None
         else Some ((minOf (map x vis) + maxOf (map x vis)) / 2,
                    (minOf (map y vis) + maxOf (map y vis)) / 2))"

definition getPivotPoint :: "Size \<Rightarrow> keypoint list \<Rightarrow> real \<times> real" where
  "getPivotPoint sz kps =
     (let anchors = filter (\<lambda>k. anchored k = Some True) kps
      in if length anchors > 0 then
           (let sumX = foldl (\<lambda>acc k. acc + x k) 0 anchors;
                sumY = foldl (\<lambda>acc k. acc + y k) 0 anchors
            in (sumX / real (length anchors), sumY / real (length anchors)))
         else
           (case getPoseCenter kps of
              Some center \<Rightarrow> center
            | None \<Rightarrow> (width sz / 2, height sz / 2)))"

definition handleFlipHorizontal :: "App \<Rightarrow> App" where
  "handleFlipHorizontal st =
     (let prev = keypoints st;
          cx = (case getPoseCenter prev of Some center \<Rightarrow> fst center
                | None \<Rightarrow> width (size' st) / 2)
      in (recordHistory st)\<lparr>keypoints := map (\<lambda>kp. kp\<lparr>x := cx + (cx - x kp)\<rparr>) prev\<rparr>)"

definition handleFlipVertical :: "App \<Rightarrow> App" where
  "handleFlipVertical st =
     (let prev = keypoints st;
          cy = (case getPoseCenter prev of Some center \<Rightarrow> snd center
                | None \<Rightarrow> height (size' st) / 2)
      in (recordHistory st)\<lparr>keypoints := map (\<lambda>kp. kp\<lparr>y := cy + (cy - y kp)\<rparr>) prev\<rparr>)"

text \<open>\<^verbatim>\<open>Array.prototype.findIndex\<close>; \<open>None\<close> is -1.\<close>

fun findIndex :: "('a \<Rightarrow> bool) \<Rightarrow> 'a list \<Rightarrow> nat option" where
  "findIndex P [] = None"
| "findIndex P (a # as) = (if P a then Some 0 else map_option Suc (findIndex P as))"

text \<open>The mirror axis: the neck if visible, else the nose if visible, else mid-canvas.\<close>

definition mirrorAxis :: "Size \<Rightarrow> keypoint list \<Rightarrow> real" where
  "mirrorAxis sz prev =
     (let neck = find (\<lambda>k. id' k = 1) prev;
          nose = find (\<lambda>k. id' k = 0) prev
      in if neck \<noteq> None \<and> visible (the neck) then x (the neck)
         else if nose \<noteq> None \<and> visible (the nose) then x (the nose)
         else width sz / 2)"

text \<open>The symmetric pairs, each as (r, l).\<close>

definition pairs :: "(nat \<times> nat) list" where
  "pairs = [(2, 5), (3, 6), (4, 7), (8, 11), (9, 12), (10, 13), (14, 15), (16, 17)]"

text \<open>
  The body of \<^verbatim>\<open>pairs.forEach\<close>: the joint \<open>src\<close> is looked up in \<open>prev\<close>, the joint
  \<open>dst\<close> is overwritten in \<open>newKps\<close>. The reflection \<open>axisX + (axisX - x)\<close> is taken
  over the reals, as all coordinates are here; the rounding of the doubles the source
  computes with is outside the model, so what is proved of a reflected coordinate is
  exact over real arithmetic only.
\<close>

definition mirrorOnto :: "real \<Rightarrow> keypoint list \<Rightarrow> nat \<Rightarrow> nat \<Rightarrow> keypoint list \<Rightarrow> keypoint list" where
  "mirrorOnto axisX prev src dst newKps =
     (case find (\<lambda>k. id' k = src) prev of
        None \<Rightarrow> newKps
      | Some srcKp \<Rightarrow>
          (case findIndex (\<lambda>k. id' k = dst) newKps of
             None \<Rightarrow> newKps
           | Some dstIndex \<Rightarrow>
               newKps[dstIndex := (newKps ! dstIndex)\<lparr>x := axisX + (axisX - x srcKp),
                                                       y := y srcKp,
                                                       visible := visible srcKp\<rparr>]))"

definition mirrorLeftToRight :: "Size \<Rightarrow> keypoint list \<Rightarrow> keypoint list" where
  "mirrorLeftToRight sz prev =
     (let axisX = mirrorAxis sz prev
      in foldl (\<lambda>newKps (r, l). mirrorOnto axisX prev l r newKps) prev pairs)"

definition mirrorRightToLeft :: "Size \<Rightarrow> keypoint list \<Rightarrow> keypoint list" where
  "mirrorRightToLeft sz prev =
     (let axisX = mirrorAxis sz prev
      in foldl (\<lambda>newKps (r, l). mirrorOnto axisX prev r l newKps) prev pairs)"

definition handleMirrorLeftToRight :: "App \<Rightarrow> App" where
  "handleMirrorLeftToRight st =
     (recordHistory st)\<lparr>keypoints := mirrorLeftToRight (size' st) (keypoints st)\<rparr>"

definition handleMirrorRightToLeft :: "App \<Rightarrow> App" where
  "handleMirrorRightToLeft st =
     (recordHistory st)\<lparr>keypoints := mirrorRightToLeft (size' st) (keypoints st)\<rparr>"

definition handleScaleStart :: "App \<Rightarrow> App" where
  "handleScaleStart st =
     (recordHistory st)\<lparr>transformBaseRef := Some (keypoints st, constraints st)\<rparr>"

definition handleScale :: "real \<Rightarrow> App \<Rightarrow> App" where
  "handleScale factor st =
     (case transformBaseRef st of
        None \<Rightarrow> st
      | Some (baseKeypoints, baseConstraints) \<Rightarrow>
          (case getPivotPoint (size' st) baseKeypoints of
             (centerX, centerY) \<Rightarrow>
               st\<lparr>keypoints :=
                    map (\<lambda>kp. kp\<lparr>x := centerX + (x kp - centerX) * factor,
                                  y := centerY + (y kp - centerY) * factor\<rparr>) baseKeypoints,
                  constraints :=
                    foldl (\<lambda>newConstraints (key, dist). AList.update key (dist * factor) newConstraints)
                          [] baseConstraints\<rparr>))"

definition handleTransformStart :: "App \<Rightarrow> App" where
  "handleTransformStart st =
     (recordHistory st)\<lparr>isTransforming := True,
        transformBaseRef := Some (keypoints st, constraints st)\<rparr>"

definition handleTransform :: "real \<Rightarrow> real \<Rightarrow> App \<Rightarrow> App" where
  "handleTransform rotateZ scaleX st =
     (case transformBaseRef st of
        None \<Rightarrow> st
      | Some (baseKeypoints, baseConstraints) \<Rightarrow>
          (case getPivotPoint (size' st) baseKeypoints of
             (cx, cy) \<Rightarrow>
               let radZ = (rotateZ * pi) / 180
               in st\<lparr>keypoints :=
                    map (\<lambda>kp.
                           let rx = (x kp - cx) * scaleX;
                               ry = y kp - cy;
                               rotatedX = rx * cos radZ - ry * sin radZ;
                               rotatedY = rx * sin radZ + ry * cos radZ
                           in kp\<lparr>x := cx + rotatedX, y := cy + rotatedY\<rparr>) baseKeypoints\<rparr>))"

definition handleTransformEnd :: "App \<Rightarrow> App" where
  "handleTransformEnd st =
     st\<lparr>isTransforming := False,
        transformBaseRef := None,
        constraints :=
          foldl (\<lambda>newConstraints key.
                   case (find (\<lambda>k. id' k = fst key) (keypoints st),
                         find (\<lambda>k. id' k = snd key) (keypoints st)) of
                     (Some kp1, Some kp2) \<Rightarrow>
                       AList.update key (sqrt ((x kp1 - x kp2)\<^sup>2 + (y kp1 - y kp2)\<^sup>2)) newConstraints
                   | _ \<Rightarrow> newConstraints)
                [] (map fst (constraints st))\<rparr>"

section \<open>The editor as a state machine\<close>

text \<open>The state the component starts in (the initial values of its \<^verbatim>\<open>useState\<close> hooks).\<close>

definition initialApp :: App where
  "initialApp =
     \<lparr> size' = \<lparr>width = 512, height = 512\<rparr>,
       bgImage = None,
       lockedJointMode = translate,
       isProcessing = False,
       isTransforming = False,
       history = \<lparr>past = [], future = []\<rparr>,
       constraints = [],
       keypoints = generateFittedKeypoints 512 512,
       transformBaseRef = None \<rparr>"

text \<open>One user event, and the handler it runs.\<close>

datatype Op =
    DragStart
  | KeypointMove nat real real
  | SkeletonDrag real real
  | ToggleConstraint nat nat
  | ToggleVisibility nat
  | ToggleLock nat
  | ToggleAnchor nat
  | ToggleAllLock
  | ToggleAllVisibility
  | Reset
  | ImportJson "PoseFile option"
  | AutoDetect DetectOutcome
  | FlipHorizontal
  | FlipVertical
  | MirrorLeftToRight
  | MirrorRightToLeft
  | ScaleStart
  | Scale real
  | TransformStart
  | Transform real real
  | TransformEnd
  | Undo
  | Redo

fun perform :: "Op \<Rightarrow> App \<Rightarrow> App" where
  "perform DragStart st = handleDragStart st"
| "perform (KeypointMove i tx ty) st = handleKeypointMove i tx ty st"
| "perform (SkeletonDrag dx dy) st = handleSkeletonDrag dx dy st"
| "perform (ToggleConstraint p1 p2) st = handleToggleConstraint p1 p2 st"
| "perform (ToggleVisibility i) st = handleToggleVisibility i st"
| "perform (ToggleLock i) st = handleToggleLock i st"
| "perform (ToggleAnchor i) st = handleToggleAnchor i st"
| "perform ToggleAllLock st = handleToggleAllLock st"
| "perform ToggleAllVisibility st = handleToggleAllVisibility st"
| "perform Reset st = handleReset st"
| "perform (ImportJson parsed) st = fst (handleImportJson parsed st)"
| "perform (AutoDetect outcome) st = fst (handleAutoDetect outcome st)"
| "perform FlipHorizontal st = handleFlipHorizontal st"
| "perform FlipVertical st = handleFlipVertical st"
| "perform MirrorLeftToRight st = handleMirrorLeftToRight st"
| "perform MirrorRightToLeft st = handleMirrorRightToLeft st"
| "perform ScaleStart st = handleScaleStart st"
| "perform (Scale factor) st = handleScale factor st"
| "perform TransformStart st = handleTransformStart st"
| "perform (Transform rotateZ scaleX) st = handleTransform rotateZ scaleX st"
| "perform TransformEnd st = handleTransformEnd st"
| "perform Undo st = undo st"
| "perform Redo st = redo st"

text \<open>A recorded mutation: the history entry is taken, then the new snapshot is set.\<close>

definition recorded :: "HistoryState \<Rightarrow> App \<Rightarrow> App" where
  "recorded s st = setSnapshot s (recordHistory st)"

section \<open>Specification-side notions\<close>

text \<open>The keypoint array holds the 18 joints, ids 0..17 in order.\<close>

definition idsOk :: "keypoint list \<Rightarrow> bool" where
  "idsOk kps = (map id' kps = [0 ..< 18])"

text \<open>Every keypoint array the state holds (current, gesture base, history) is in order.\<close>

definition poseOk :: "App \<Rightarrow> bool" where
  "poseOk st =
     (idsOk (keypoints st)
      \<and> (case transformBaseRef st of None \<Rightarrow> True | Some b \<Rightarrow> idsOk (fst b))
      \<and> list_all (\<lambda>h. idsOk (fst h)) (past (history st))
      \<and> list_all (\<lambda>h. idsOk (fst h)) (future (history st)))"

text \<open>Two joints are linked when a constraint key names both, in either order.\<close>

definition linked :: "constraints \<Rightarrow> (nat \<times> nat) set" where
  "linked cs = {(a, b). (a, b) \<in> fst ` set cs \<or> (b, a) \<in> fst ` set cs}"

text \<open>The connected component of joint \<open>i\<close>: what the links reach from it.\<close>

definition component :: "constraints \<Rightarrow> nat \<Rightarrow> nat set" where
  "component cs i = {j. (i, j) \<in> (linked cs)\<^sup>*}"

definition distance :: "keypoint \<Rightarrow> keypoint \<Rightarrow> real" where
  "distance a b = sqrt ((x a - x b)\<^sup>2 + (y a - y b)\<^sup>2)"

declare connectedLoop.simps [simp del]
declare cascadeLoop.simps [simp del]

section \<open>Evaluating the initial pose\<close>

text \<open>The pose the editor starts with, on the 512 by 512 canvas.\<close>

lemma initial_pose:
  "generateFittedKeypoints 512 512 =
     [
       \<lparr>id' = 0, name = ''Nose'', x = 256, y = 3008 / 41,
         visible = True, locked = False, anchored = None, color = ''#ff0000'', rgb = (255, 0, 0)\<rparr>,
       \<lparr>id' = 1, name = ''Neck'', x = 256, y = 5312 / 41,
         visible = True, locked = False, anchored = None, color = ''#ff5500'', rgb = (255, 85, 0)\<rparr>,
       \<lparr>id' = 2, name = ''R_Shoulder'', x = 8576 / 41, y = 5312 / 41,
         visible = True, locked = False, anchored = None, color = ''#ffaa00'', rgb = (255, 170, 0)\<rparr>,
       \<lparr>id' = 3, name = ''R_Elbow'', x = 7808 / 41, y = 8384 / 41,
         visible = True, locked = False, anchored = None, color = ''#ffff00'', rgb = (255, 255, 0)\<rparr>,
       \<lparr>id' = 4, name = ''R_Wrist'', x = 7040 / 41, y = 10688 / 41,
         visible = True, locked = False, anchored = None, color = ''#aaff00'', rgb = (170, 255, 0)\<rparr>,
       \<lparr>id' = 5, name = ''L_Shoulder'', x = 12416 / 41, y = 5312 / 41,
         visible = True, locked = False, anchored = None, color = ''#55ff00'', rgb = (85, 255, 0)\<rparr>,
       \<lparr>id' = 6, name = ''L_Elbow'', x = 13184 / 41, y = 8384 / 41,
         visible = True, locked = False, anchored = None, color = ''#00ff00'', rgb = (0, 255, 0)\<rparr>,
       \<lparr>id' = 7, name = ''L_Wrist'', x = 13952 / 41, y = 10688 / 41,
         visible = True, locked = False, anchored = None, color = ''#00ff55'', rgb = (0, 255, 85)\<rparr>,
       \<lparr>id' = 8, name = ''R_Hip'', x = 9344 / 41, y = 10688 / 41,
         visible = True, locked = False, anchored = None, color = ''#00ffaa'', rgb = (0, 255, 170)\<rparr>,
       \<lparr>id' = 9, name = ''R_Knee'', x = 9344 / 41, y = 14528 / 41,
         visible = True, locked = False, anchored = None, color = ''#00ffff'', rgb = (0, 255, 255)\<rparr>,
       \<lparr>id' = 10, name = ''R_Ankle'', x = 9344 / 41, y = 448,
         visible = True, locked = False, anchored = None, color = ''#00aaff'', rgb = (0, 170, 255)\<rparr>,
       \<lparr>id' = 11, name = ''L_Hip'', x = 11648 / 41, y = 10688 / 41,
         visible = True, locked = False, anchored = None, color = ''#0055ff'', rgb = (0, 85, 255)\<rparr>,
       \<lparr>id' = 12, name = ''L_Knee'', x = 11648 / 41, y = 14528 / 41,
         visible = True, locked = False, anchored = None, color = ''#0000ff'', rgb = (0, 0, 255)\<rparr>,
       \<lparr>id' = 13, name = ''L_Ankle'', x = 11648 / 41, y = 448,
         visible = True, locked = False, anchored = None, color = ''#5500ff'', rgb = (85, 0, 255)\<rparr>,
       \<lparr>id' = 14, name = ''R_Eye'', x = 10112 / 41, y = 64,
         visible = True, locked = False, anchored = None, color = ''#aa00ff'', rgb = (170, 0, 255)\<rparr>,
       \<lparr>id' = 15, name = ''L_Eye'', x = 10880 / 41, y = 64,
         visible = True, locked = False, anchored = None, color = ''#ff00ff'', rgb = (255, 0, 255)\<rparr>,
       \<lparr>id' = 16, name = ''R_Ear'', x = 9344 / 41, y = 2816 / 41,
         visible = True, locked = False, anchored = None, color = ''#ff00aa'', rgb = (255, 0, 170)\<rparr>,
       \<lparr>id' = 17, name = ''L_Ear'', x = 11648 / 41, y = 2816 / 41,
         visible = True, locked = False, anchored = None, color = ''#ff0055'', rgb = (255, 0, 85)\<rparr>]"
  by (simp add: generateFittedKeypoints_def INITIAL_KEYPOINTS_def KEYPOINT_NAMES_def
      DEFAULT_POSE_COORDS_def JOINT_COLORS_RGB_def minOf_def maxOf_def Let_def upt_rec
      rgbToHex_def hexDigit_def)

lemmas initial_pose_defs = initialApp_def initial_pose

lemma initial_pose_ids: "map id' (generateFittedKeypoints w h) = [0 ..< 18]"
  by (simp add: generateFittedKeypoints_def INITIAL_KEYPOINTS_def KEYPOINT_NAMES_def
      Let_def upt_rec)

section \<open>A locked limb on the initial pose\<close>

text \<open>The state after locking the limb between neck (1) and right shoulder (2).\<close>

lemma locked_limb:
  "constraints (handleToggleConstraint (Suc 0) 2 initialApp) = [((Suc 0, 2), 1920 / 41)]"
  by (simp add: handleToggleConstraint_def recordHistory_def initial_pose_defs)

lemma locked_limb_keypoints:
  "keypoints (handleToggleConstraint (Suc 0) 2 initialApp) = generateFittedKeypoints 512 512"
  by (simp add: handleToggleConstraint_def recordHistory_def initialApp_def)

section \<open>History: undo and redo\<close>

text \<open>
  C3. From any state (its snapshot is S0; the history may hold anything, in particular
  nothing), three recorded mutations to S1, S2, S3 followed by three undos make the
  current (keypoints, constraints) snapshot S0 again; three redos after that make it S3;
  and a mutation recorded after an undo leaves the future (redo) stack empty.
\<close>

theorem history_undo_redo:
  "snapshot (undo (undo (undo (recorded S3 (recorded S2 (recorded S1 st)))))) = snapshot st
   \<and> snapshot (redo (redo (redo (undo (undo (undo
        (recorded S3 (recorded S2 (recorded S1 st))))))))) = S3
   \<and> future (history (recorded S (undo st'))) = []"
  by (simp add: undo_def redo_def recorded_def recordHistory_def setSnapshot_def
      snapshot_def Let_def butlast_append last_append)

section \<open>Visibility cascade\<close>

lemma cascade_neck:
  "cascadeLoop [Suc 0] [Suc 0] = [1, 0, 2, 5, 8, 11, 14, 15, 3, 6, 9, 12, 16, 17, 4, 7, 10, 13]"
  by (simp add: cascadeLoop.simps POSE_HIERARCHY_def visitChild_def)

lemma cascade_neck_set: "set (cascadeLoop [Suc 0] [Suc 0]) = {..<18}"
proof -
  have "(n::nat) < 18 \<longleftrightarrow> n \<in> {1, 0, 2, 5, 8, 11, 14, 15, 3, 6, 9, 12, 16, 17, 4, 7, 10, 13}"
    for n
    by (simp, arith)
  then show ?thesis
    unfolding cascade_neck by auto
qed

text \<open>
  C1, as the code has it. When the neck (the first joint with id 1) is visible, toggling
  it sets \<open>visible = False\<close> on every joint with an id in 0..17 and changes nothing else:
  the hierarchy reaches the elbows, wrists, knees and ankles (3, 4, 6, 7, 9, 10, 12, 13)
  through the shoulders and hips. When the neck is hidden, toggling it sets
  \<open>visible = True\<close> on the neck only.
\<close>

theorem hide_neck_cascade:
  assumes "find (\<lambda>k. id' k = 1) (keypoints st) = Some neck"
  shows "keypoints (handleToggleVisibility 1 st) =
     (if visible neck
      then map (\<lambda>kp. if id' kp < 18 then kp\<lparr>visible := False\<rparr> else kp) (keypoints st)
      else map (\<lambda>kp. if id' kp = 1 then kp\<lparr>visible := True\<rparr> else kp) (keypoints st))"
  using assms
  by (simp add: handleToggleVisibility_def recordHistory_def toggleVisibility_def
      cascade_neck_set cong: map_cong)

text \<open>
  On the initial pose, hiding the neck hides all 18 joints; showing it again shows the
  neck alone.
\<close>

theorem hide_neck_cascade_witness:
  "map visible (keypoints (handleToggleVisibility 1 initialApp)) =
     [False, False, False, False, False, False, False, False, False,
      False, False, False, False, False, False, False, False, False]
   \<and> map visible (keypoints (handleToggleVisibility 1 (handleToggleVisibility 1 initialApp))) =
     [False, True, False, False, False, False, False, False, False,
      False, False, False, False, False, False, False, False, False]"
proof -
  let ?k = "keypoints initialApp"
  have a: "find (\<lambda>k. id' k = 1) ?k = Some (?k ! 1)"
    by (simp add: initial_pose_defs)
  let ?st = "handleToggleVisibility 1 initialApp"
  have b: "find (\<lambda>k. id' k = 1) (keypoints ?st) = Some (keypoints ?st ! 1)"
    unfolding hide_neck_cascade [OF a]
    by (simp add: initial_pose_defs)
  show ?thesis
    unfolding hide_neck_cascade [OF b] unfolding hide_neck_cascade [OF a]
    by (simp add: initial_pose_defs)
qed

text \<open>
  The claim as stated fails: on the initial pose the right elbow (id 3) is visible, and
  hiding the neck hides it.
\<close>

theorem hide_neck_counterexample:
  "id' (keypoints initialApp ! 3) = 3 \<and> visible (keypoints initialApp ! 3)
   \<and> \<not> visible (keypoints (handleToggleVisibility 1 initialApp) ! 3)"
  by (simp add: handleToggleVisibility_def recordHistory_def toggleVisibility_def
      cascade_neck initial_pose_defs)

section \<open>Pose detection\<close>

text \<open>
  What a failed detection leaves: the alert, the keypoints as they were, and no
  constraints.
\<close>

lemma auto_detect_failure_keeps_keypoints:
  assumes "bgImage st \<noteq> None" "bgImage st \<noteq> Some []"
    and "outcome = Threw \<or> outcome = Returned None
         \<or> (\<exists>pts. outcome = Returned (Some pts) \<and> length pts \<noteq> 18)"
  shows "snd (handleAutoDetect outcome st) \<noteq> None
         \<and> keypoints (fst (handleAutoDetect outcome st)) = keypoints st
         \<and> constraints (fst (handleAutoDetect outcome st)) = []"
  using assms by (auto simp: handleAutoDetect_def recordHistory_def Let_def)

text \<open>
  C4 on the code. The user locks the limb 1-2, loads an image and runs the detection,
  which returns \<^verbatim>\<open>null\<close>: the failure is reported and the keypoints stay, but the
  constraint is gone, cleared before the call was made.
\<close>

theorem auto_detect_failure_clears_constraints:
  "snd (handleAutoDetect (Returned None)
          ((handleToggleConstraint 1 2 initialApp)\<lparr>bgImage := Some ''image''\<rparr>)) = Some NoValidPose
   \<and> keypoints (fst (handleAutoDetect (Returned None)
          ((handleToggleConstraint 1 2 initialApp)\<lparr>bgImage := Some ''image''\<rparr>)))
       = keypoints ((handleToggleConstraint 1 2 initialApp)\<lparr>bgImage := Some ''image''\<rparr>)
   \<and> map fst (constraints ((handleToggleConstraint 1 2 initialApp)\<lparr>bgImage := Some ''image''\<rparr>))
       = [(1, 2)]
   \<and> constraints (fst (handleAutoDetect (Returned None)
          ((handleToggleConstraint 1 2 initialApp)\<lparr>bgImage := Some ''image''\<rparr>))) = []"
  by (simp add: handleAutoDetect_def handleToggleConstraint_def recordHistory_def
      initial_pose_defs)

section \<open>Import\<close>

lemma importKeypoints_nth:
  assumes "length kpArray < 75" "i < length kps"
  shows "importKeypoints kpArray kps ! i =
     (if 3 * i + 2 < length kpArray
      then (kps ! i)\<lparr>x := kpArray ! (3 * i), y := kpArray ! (3 * i + 1),
                     visible := (kpArray ! (3 * i) \<noteq> 0 \<or> kpArray ! (3 * i + 1) \<noteq> 0)\<rparr>
      else kps ! i)"
  using assms by (simp add: importKeypoints_def getKeypoint_def Let_def mult.commute)

text \<open>
  C5, as the code has it. With a first person in the file: when \<^verbatim>\<open>pose_keypoints_2d\<close> is
  missing or not an array the import alerts and leaves keypoints and constraints as they
  were; when it is an array shorter than 75 numbers (so also one shorter than 54) nothing
  is reported, joint \<open>i\<close> is overwritten when the array holds its three numbers
  (\<open>3 i + 2 < length\<close>) and kept otherwise, and the constraints are cleared.
\<close>

theorem import_short_array:
  assumes "people data = Some (person # others)"
  shows "(pose_keypoints_2d person = None \<longrightarrow>
            snd (handleImportJson (Some data) st) = Some NoKeypoints
            \<and> keypoints (fst (handleImportJson (Some data) st)) = keypoints st
            \<and> constraints (fst (handleImportJson (Some data) st)) = constraints st)
       \<and> (pose_keypoints_2d person = Some kpArray \<and> length kpArray < 75 \<longrightarrow>
            snd (handleImportJson (Some data) st) = None
            \<and> constraints (fst (handleImportJson (Some data) st)) = []
            \<and> length (keypoints (fst (handleImportJson (Some data) st))) = length (keypoints st)
            \<and> (\<forall>i < length (keypoints st).
                  keypoints (fst (handleImportJson (Some data) st)) ! i =
                    (if 3 * i + 2 < length kpArray
                     then (keypoints st ! i)\<lparr>x := kpArray ! (3 * i), y := kpArray ! (3 * i + 1),
                            visible := (kpArray ! (3 * i) \<noteq> 0 \<or> kpArray ! (3 * i + 1) \<noteq> 0)\<rparr>
                     else keypoints st ! i)))"
proof -
  have len: "length (importKeypoints a kps) = length kps" for a kps
    by (simp add: importKeypoints_def)
  show ?thesis
    using assms
    by (auto simp: handleImportJson_def recordHistory_def Let_def len importKeypoints_nth
        split: option.splits)
qed

text \<open>A three-number array imported over the initial pose with limb 1-2 locked.\<close>

theorem import_short_array_witness:
  "snd (handleImportJson
          (Some \<lparr>people = Some [\<lparr>pose_keypoints_2d = Some [10, 20, 1]\<rparr>], canvas_config = None\<rparr>)
          (handleToggleConstraint 1 2 initialApp)) = None
   \<and> keypoints (fst (handleImportJson
          (Some \<lparr>people = Some [\<lparr>pose_keypoints_2d = Some [10, 20, 1]\<rparr>], canvas_config = None\<rparr>)
          (handleToggleConstraint 1 2 initialApp))) ! 1
       = keypoints (handleToggleConstraint 1 2 initialApp) ! 1"
  using import_short_array
    [of "\<lparr>people = Some [\<lparr>pose_keypoints_2d = Some [10, 20, 1]\<rparr>], canvas_config = None\<rparr>"
        "\<lparr>pose_keypoints_2d = Some [10, 20, 1]\<rparr>" "[]"
        "handleToggleConstraint 1 2 initialApp" "[10, 20, 1]"]
  by (simp add: handleToggleConstraint_def recordHistory_def initial_pose_defs)

text \<open>
  The claim as stated fails: the same three-number array raises no alert, moves the nose
  from x = 256 to x = 10 and clears the constraint on limb 1-2.
\<close>

theorem import_short_array_counterexample:
  "snd (handleImportJson
          (Some \<lparr>people = Some [\<lparr>pose_keypoints_2d = Some [10, 20, 1]\<rparr>], canvas_config = None\<rparr>)
          (handleToggleConstraint 1 2 initialApp)) = None
   \<and> x (keypoints (handleToggleConstraint 1 2 initialApp) ! 0) = 256
   \<and> x (keypoints (fst (handleImportJson
          (Some \<lparr>people = Some [\<lparr>pose_keypoints_2d = Some [10, 20, 1]\<rparr>], canvas_config = None\<rparr>)
          (handleToggleConstraint 1 2 initialApp))) ! 0) = 10
   \<and> map fst (constraints (handleToggleConstraint 1 2 initialApp)) = [(1, 2)]
   \<and> constraints (fst (handleImportJson
          (Some \<lparr>people = Some [\<lparr>pose_keypoints_2d = Some [10, 20, 1]\<rparr>], canvas_config = None\<rparr>)
          (handleToggleConstraint 1 2 initialApp))) = []"
  by (simp add: handleImportJson_def importKeypoints_def getKeypoint_def
      handleToggleConstraint_def recordHistory_def initial_pose_defs)

section \<open>Scale\<close>

lemma scaled_constraints_append:
  assumes "distinct (map fst bc)" "fst ` set acc \<inter> fst ` set bc = {}"
  shows "foldl (\<lambda>newConstraints (key, dist). AList.update key (dist * f) newConstraints) acc bc
         = acc @ map (\<lambda>(key, dist). (key, dist * f)) bc"
  using assms
proof (induction bc arbitrary: acc)
  case Nil
  then show ?case by simp
next
  case (Cons e bc)
  obtain k d where e: "e = (k, d)" by (cases e)
  have notin: "k \<notin> fst ` set acc"
    using Cons.prems e by auto
  have upd: "AList.update k (d * f) acc = acc @ [(k, d * f)]"
    using notin by (induction acc) auto
  have "fst ` set (acc @ [(k, d * f)]) \<inter> fst ` set bc = {}"
    using Cons.prems e by auto
  moreover have "distinct (map fst bc)"
    using Cons.prems by simp
  ultimately show ?case
    using Cons.IH [of "acc @ [(k, d * f)]"] by (simp add: e upd)
qed

text \<open>
  C8. While a scale gesture is active (the base snapshot is captured) and the base
  constraints are a JavaScript object (no key twice), \<^verbatim>\<open>handleScale f\<close> sends every
  joint of the base to pivot + (position - pivot) * f, the pivot being
  \<^verbatim>\<open>getPivotPoint\<close> of the base keypoints, and every constraint to f times its base
  distance.
\<close>

theorem scale_positions_and_distances:
  assumes "transformBaseRef st = Some (baseKeypoints, baseConstraints)"
    and "distinct (map fst baseConstraints)"
    and "pivot = getPivotPoint (size' st) baseKeypoints"
  shows "keypoints (handleScale f st) =
           map (\<lambda>kp. kp\<lparr>x := fst pivot + (x kp - fst pivot) * f,
                         y := snd pivot + (y kp - snd pivot) * f\<rparr>) baseKeypoints
       \<and> constraints (handleScale f st) = map (\<lambda>(key, dist). (key, dist * f)) baseConstraints"
  using assms scaled_constraints_append [of baseConstraints "[]" f]
  by (simp add: handleScale_def split: prod.splits)

text \<open>Scaling the initial pose, limb 1-2 locked, by 2 about its centre (256, 256).\<close>

theorem scale_positions_and_distances_witness:
  "map (\<lambda>k. (x k, y k)) (keypoints (handleScale 2 (handleScaleStart (handleToggleConstraint 1 2 initialApp))))
     = [(256, -4480 / 41), (256, 128 / 41), (6656 / 41, 128 / 41), (5120 / 41, 6272 / 41),
        (3584 / 41, 10880 / 41), (14336 / 41, 128 / 41), (15872 / 41, 6272 / 41),
        (17408 / 41, 10880 / 41), (8192 / 41, 10880 / 41), (8192 / 41, 18560 / 41),
        (8192 / 41, 640), (12800 / 41, 10880 / 41), (12800 / 41, 18560 / 41), (12800 / 41, 640),
        (9728 / 41, -128), (11264 / 41, -128), (8192 / 41, -4864 / 41), (12800 / 41, -4864 / 41)]
   \<and> constraints (handleScale 2 (handleScaleStart (handleToggleConstraint 1 2 initialApp)))
     = [((1, 2), 3840 / 41)]"
proof -
  let ?st = "handleScaleStart (handleToggleConstraint 1 2 initialApp)"
  have base: "transformBaseRef ?st = Some (generateFittedKeypoints 512 512, [((1, 2), 1920 / 41)])"
    by (simp add: handleScaleStart_def recordHistory_def locked_limb locked_limb_keypoints)
  have pivot: "(256, 256) = getPivotPoint (size' ?st) (generateFittedKeypoints 512 512)"
    by (simp add: getPivotPoint_def getPoseCenter_def minOf_def maxOf_def initial_pose)
  show ?thesis
    using scale_positions_and_distances [OF base _ pivot, of 2]
    by (simp add: initial_pose)
qed

section \<open>Constraint-resolution drag\<close>

lemma projected_distance:
  assumes "c = sqrt (dx * dx + dy * dy)" "c > 0"
  shows "sqrt ((dx * (d / c))\<^sup>2 + (dy * (d / c))\<^sup>2) = \<bar>d\<bar>"
proof -
  have c2: "c\<^sup>2 = dx * dx + dy * dy"
    using assms by (simp add: power2_eq_square [symmetric])
  have "(a * s)\<^sup>2 + (b * s)\<^sup>2 = s\<^sup>2 * (a * a + b * b)" for a b s :: real
    by (simp add: power2_eq_square algebra_simps)
  then have "(dx * (d / c))\<^sup>2 + (dy * (d / c))\<^sup>2 = (d / c)\<^sup>2 * (dx * dx + dy * dy)" .
  also have "\<dots> = (d / c)\<^sup>2 * c\<^sup>2"
    by (simp add: c2)
  also have "\<dots> = d\<^sup>2"
    using assms(2) by (simp add: power_divide)
  finally show ?thesis by simp
qed

lemma single_constraint_move:
  assumes "find (\<lambda>k. id' k = i) prev = Some dragged"
    and "filter (\<lambda>(key, d). fst key = i \<or> snd key = i) cs = [((p1, p2), d)]"
    and "find (\<lambda>k. id' k = (if p1 = i then p2 else p1)) prev = Some partner"
  shows "keypointMove cs rotate' i tx ty prev =
     (let dx = tx - x partner; dy = ty - y partner; c = sqrt (dx * dx + dy * dy);
          nxt = (if c > 0 then (x partner + dx * (d / c), y partner + dy * (d / c)) else (tx, ty))
      in map (\<lambda>kp. if id' kp = i then kp\<lparr>x := fst nxt, y := snd nxt\<rparr> else kp) prev)"
  using assms by (simp add: keypointMove_def resolveStep_def Let_def)

lemma find_map_other:
  assumes "j \<noteq> i" "\<And>k. id' (f k) = id' k"
  shows "find (\<lambda>k. id' k = j) (map (\<lambda>kp. if id' kp = i then f kp else kp) kps)
         = find (\<lambda>k. id' k = j) kps"
  using assms by (induction kps) auto

lemma find_map_same:
  assumes "\<And>k. id' (f k) = id' k"
  shows "find (\<lambda>k. id' k = i) (map (\<lambda>kp. if id' kp = i then f kp else kp) kps)
         = map_option f (find (\<lambda>k. id' k = i) kps)"
  using assms by (induction kps) auto

text \<open>
  C7. In constraint-resolution mode, let the dragged joint \<open>i\<close> have exactly one active
  constraint, with target distance \<open>d\<close> (a distance: not negative) to another joint
  \<open>j\<close>, and let the raw target (tx, ty) differ from the position of \<open>j\<close>. Then only
  the coordinates of the joints with id \<open>i\<close> change, the partner stays, and the dragged
  joint ends at Euclidean distance exactly \<open>d\<close> from the partner.
\<close>

theorem single_constraint_distance:
  assumes mode: "lockedJointMode st = rotate'"
    and dragged: "find (\<lambda>k. id' k = i) (keypoints st) = Some dragged"
    and active: "filter (\<lambda>(key, d). fst key = i \<or> snd key = i) (constraints st) = [((p1, p2), d)]"
    and j: "j = (if p1 = i then p2 else p1)" "j \<noteq> i"
    and partner: "find (\<lambda>k. id' k = j) (keypoints st) = Some partner"
    and apart: "(tx, ty) \<noteq> (x partner, y partner)"
    and d: "0 \<le> d"
  shows "\<exists>nx ny.
           keypoints (handleKeypointMove i tx ty st) =
             map (\<lambda>kp. if id' kp = i then kp\<lparr>x := nx, y := ny\<rparr> else kp) (keypoints st)
         \<and> find (\<lambda>k. id' k = i) (keypoints (handleKeypointMove i tx ty st))
             = Some (dragged\<lparr>x := nx, y := ny\<rparr>)
         \<and> find (\<lambda>k. id' k = j) (keypoints (handleKeypointMove i tx ty st)) = Some partner
         \<and> distance (dragged\<lparr>x := nx, y := ny\<rparr>) partner = d"
proof -
  let ?dx = "tx - x partner" and ?dy = "ty - y partner"
  let ?c = "sqrt (?dx * ?dx + ?dy * ?dy)"
  let ?nx = "x partner + ?dx * (d / ?c)" and ?ny = "y partner + ?dy * (d / ?c)"
  let ?res = "map (\<lambda>kp. if id' kp = i then kp\<lparr>x := ?nx, y := ?ny\<rparr> else kp) (keypoints st)"
  have pos: "?c > 0"
    using apart by (auto simp: sum_squares_gt_zero_iff)
  have partner': "find (\<lambda>k. id' k = (if p1 = i then p2 else p1)) (keypoints st) = Some partner"
    using partner j by simp
  have res: "keypoints (handleKeypointMove i tx ty st) = ?res"
    using single_constraint_move [OF dragged active partner', of tx ty] pos mode
    by (simp add: handleKeypointMove_def Let_def)
  have f1: "find (\<lambda>k. id' k = i) ?res = Some (dragged\<lparr>x := ?nx, y := ?ny\<rparr>)"
    using find_map_same [of "\<lambda>kp. kp\<lparr>x := ?nx, y := ?ny\<rparr>" i "keypoints st"] dragged by simp
  have f2: "find (\<lambda>k. id' k = j) ?res = Some partner"
    using find_map_other [of j i "\<lambda>kp. kp\<lparr>x := ?nx, y := ?ny\<rparr>" "keypoints st"] partner j
    by simp
  have "distance (dragged\<lparr>x := ?nx, y := ?ny\<rparr>) partner = \<bar>d\<bar>"
    using projected_distance [OF refl pos, of d] by (simp add: distance_def)
  then have f3: "distance (dragged\<lparr>x := ?nx, y := ?ny\<rparr>) partner = d"
    using d by simp
  show ?thesis
    unfolding res using f1 f2 f3 by blast
qed

text \<open>
  The right shoulder of the initial pose, locked to the neck at distance 1920 / 41 and
  dragged to (100, 100).
\<close>

theorem single_constraint_distance_witness:
  "\<exists>nx ny.
      keypoints (handleKeypointMove 2 100 100
         ((handleToggleConstraint 1 2 initialApp)\<lparr>lockedJointMode := rotate'\<rparr>)) =
        map (\<lambda>kp. if id' kp = 2 then kp\<lparr>x := nx, y := ny\<rparr> else kp)
          (generateFittedKeypoints 512 512)
    \<and> find (\<lambda>k. id' k = 2) (keypoints (handleKeypointMove 2 100 100
         ((handleToggleConstraint 1 2 initialApp)\<lparr>lockedJointMode := rotate'\<rparr>)))
        = Some ((generateFittedKeypoints 512 512 ! 2)\<lparr>x := nx, y := ny\<rparr>)
    \<and> find (\<lambda>k. id' k = 1) (keypoints (handleKeypointMove 2 100 100
         ((handleToggleConstraint 1 2 initialApp)\<lparr>lockedJointMode := rotate'\<rparr>)))
        = Some (generateFittedKeypoints 512 512 ! 1)
    \<and> distance ((generateFittedKeypoints 512 512 ! 2)\<lparr>x := nx, y := ny\<rparr>)
          (generateFittedKeypoints 512 512 ! 1) = 1920 / 41"
proof -
  let ?st = "(handleToggleConstraint 1 2 initialApp)\<lparr>lockedJointMode := rotate'\<rparr>"
  let ?k = "generateFittedKeypoints 512 512"
  have mode: "lockedJointMode ?st = rotate'" by simp
  have dragged: "find (\<lambda>k. id' k = 2) (keypoints ?st) = Some (?k ! 2)"
    by (simp add: locked_limb_keypoints initial_pose)
  have active: "filter (\<lambda>(key, d). fst key = 2 \<or> snd key = 2) (constraints ?st)
                = [((1, 2), 1920 / 41)]"
    by (simp add: locked_limb)
  have j: "(1::nat) = (if (1::nat) = 2 then 2 else 1)" "(1::nat) \<noteq> 2" by simp_all
  have partner: "find (\<lambda>k. id' k = 1) (keypoints ?st) = Some (?k ! 1)"
    by (simp add: locked_limb_keypoints initial_pose)
  have apart: "(100, 100) \<noteq> (x (?k ! 1), y (?k ! 1))"
    by (simp add: initial_pose)
  have d: "(0::real) \<le> 1920 / 41" by simp
  show ?thesis
    using single_constraint_distance [OF mode dragged active j partner apart d]
    by (simp add: locked_limb_keypoints)
qed

text \<open>
  C9, as the code has it. When the raw target is the partner's position, the constraint
  adds no candidate: the step returns the sums and the count as they were, and the
  division by the raw distance, which stands under \<^verbatim>\<open>currentDist > 0\<close>, is not taken. When
  that constraint is the only active one the count stays 0 and the dragged joint is placed
  at the raw target, that is on the partner; no other joint changes.
\<close>

theorem zero_distance_fallback:
  assumes mode: "lockedJointMode st = rotate'"
    and dragged: "find (\<lambda>k. id' k = i) (keypoints st) = Some dragged"
    and active: "filter (\<lambda>(key, d). fst key = i \<or> snd key = i) (constraints st) = [((p1, p2), d)]"
    and partner: "find (\<lambda>k. id' k = (if p1 = i then p2 else p1)) (keypoints st) = Some partner"
  shows "resolveStep (keypoints st) i (x partner) (y partner) acc ((p1, p2), d) = acc
       \<and> keypoints (handleKeypointMove i (x partner) (y partner) st) =
           map (\<lambda>kp. if id' kp = i then kp\<lparr>x := x partner, y := y partner\<rparr> else kp)
             (keypoints st)"
proof -
  have "resolveStep (keypoints st) i (x partner) (y partner) acc ((p1, p2), d) = acc"
    using partner by (cases acc) (simp add: resolveStep_def)
  moreover have "keypoints (handleKeypointMove i (x partner) (y partner) st) =
      map (\<lambda>kp. if id' kp = i then kp\<lparr>x := x partner, y := y partner\<rparr> else kp) (keypoints st)"
    using single_constraint_move [OF dragged active partner, of "x partner" "y partner"] mode
    by (simp add: handleKeypointMove_def Let_def)
  ultimately show ?thesis by simp
qed

text \<open>The right shoulder, locked to the neck, dragged onto the neck at (256, 5312 / 41).\<close>

theorem zero_distance_fallback_witness:
  "map (\<lambda>k. (x k, y k)) (keypoints (handleKeypointMove 2 256 (5312 / 41)
      ((handleToggleConstraint 1 2 initialApp)\<lparr>lockedJointMode := rotate'\<rparr>)))
   = map (\<lambda>k. (x k, y k)) ((generateFittedKeypoints 512 512)
       [2 := (generateFittedKeypoints 512 512 ! 2)\<lparr>x := 256, y := 5312 / 41\<rparr>])"
proof -
  let ?st = "(handleToggleConstraint 1 2 initialApp)\<lparr>lockedJointMode := rotate'\<rparr>"
  let ?k = "generateFittedKeypoints 512 512"
  have mode: "lockedJointMode ?st = rotate'" by simp
  have dragged: "find (\<lambda>k. id' k = 2) (keypoints ?st) = Some (?k ! 2)"
    by (simp add: locked_limb_keypoints initial_pose)
  have active: "filter (\<lambda>(key, d). fst key = 2 \<or> snd key = 2) (constraints ?st)
                = [((1, 2), 1920 / 41)]"
    by (simp add: locked_limb)
  have partner: "find (\<lambda>k. id' k = (if (1::nat) = 2 then 2 else 1)) (keypoints ?st) = Some (?k ! 1)"
    by (simp add: locked_limb_keypoints initial_pose)
  have xy: "x (?k ! 1) = 256" "y (?k ! 1) = 5312 / 41"
    by (simp_all add: initial_pose)
  show ?thesis
    using zero_distance_fallback [OF mode dragged active partner, of "(0, 0, 0)"]
    unfolding xy
    by (simp add: locked_limb_keypoints initial_pose)
qed

text \<open>
  The claim as stated fails: in that drag the right shoulder does not keep its position
  (x = 8576 / 41), it lands on the neck (x = 256).
\<close>

theorem zero_distance_counterexample:
  "lockedJointMode ((handleToggleConstraint 1 2 initialApp)\<lparr>lockedJointMode := rotate'\<rparr>) = rotate'
   \<and> constraints ((handleToggleConstraint 1 2 initialApp)\<lparr>lockedJointMode := rotate'\<rparr>)
       = [((1, 2), 1920 / 41)]
   \<and> x (keypoints ((handleToggleConstraint 1 2 initialApp)\<lparr>lockedJointMode := rotate'\<rparr>) ! 1) = 256
   \<and> y (keypoints ((handleToggleConstraint 1 2 initialApp)\<lparr>lockedJointMode := rotate'\<rparr>) ! 1)
       = 5312 / 41
   \<and> x (keypoints ((handleToggleConstraint 1 2 initialApp)\<lparr>lockedJointMode := rotate'\<rparr>) ! 2)
       = 8576 / 41
   \<and> x (keypoints (handleKeypointMove 2 256 (5312 / 41)
         ((handleToggleConstraint 1 2 initialApp)\<lparr>lockedJointMode := rotate'\<rparr>)) ! 2) = 256"
  by (simp add: handleKeypointMove_def keypointMove_def resolveStep_def locked_limb
      locked_limb_keypoints initial_pose)

section \<open>Mirror\<close>

lemma find_update_first:
  assumes "\<And>k. id' (f k) = id' k"
  shows "find (\<lambda>k. id' k = e)
           (case findIndex (\<lambda>k. id' k = d) xs of None \<Rightarrow> xs | Some n \<Rightarrow> xs[n := f (xs ! n)])
         = (if e = d then map_option f (find (\<lambda>k. id' k = d) xs) else find (\<lambda>k. id' k = e) xs)"
proof (induction xs)
  case Nil
  then show ?case by simp
next
  case (Cons a as)
  show ?case
  proof (cases "id' a = d")
    case True
    then show ?thesis by (simp add: assms)
  next
    case False
    then show ?thesis
      using Cons.IH by (cases "findIndex (\<lambda>k. id' k = d) as") auto
  qed
qed

lemma findIndex_Some:
  "findIndex P xs = Some n \<Longrightarrow> n < length xs \<and> P (xs ! n) \<and> find P xs = Some (xs ! n)"
proof (induction xs arbitrary: n)
  case Nil
  then show ?case by simp
next
  case (Cons a as)
  then show ?case by (cases "P a") auto
qed

lemma find_mirrorOnto:
  "find (\<lambda>k. id' k = e) (mirrorOnto a prev s d new) =
     (if e = d then
        (case find (\<lambda>k. id' k = s) prev of
           None \<Rightarrow> find (\<lambda>k. id' k = d) new
         | Some sk \<Rightarrow> map_option (\<lambda>k. k\<lparr>x := a + (a - x sk), y := y sk, visible := visible sk\<rparr>)
                        (find (\<lambda>k. id' k = d) new))
      else find (\<lambda>k. id' k = e) new)"
proof (cases "find (\<lambda>k. id' k = s) prev")
  case None
  then show ?thesis by (simp add: mirrorOnto_def)
next
  case (Some sk)
  show ?thesis
    using find_update_first
      [where f = "\<lambda>k. k\<lparr>x := a + (a - x sk), y := y sk, visible := visible sk\<rparr>"
         and e = e and d = d and xs = new]
    by (simp add: mirrorOnto_def Some)
qed

lemma mirrorOnto_fixed:
  assumes "\<And>sk dk. find (\<lambda>k. id' k = s) prev = Some sk \<Longrightarrow> find (\<lambda>k. id' k = d) new = Some dk
             \<Longrightarrow> x dk = a + (a - x sk) \<and> y dk = y sk \<and> visible dk = visible sk"
  shows "mirrorOnto a prev s d new = new"
proof (cases "find (\<lambda>k. id' k = s) prev")
  case None
  then show ?thesis by (simp add: mirrorOnto_def)
next
  case (Some sk)
  show ?thesis
  proof (cases "findIndex (\<lambda>k. id' k = d) new")
    case None
    then show ?thesis by (simp add: mirrorOnto_def Some)
  next
    case (Some n)
    from findIndex_Some [OF this] have n: "n < length new"
      and f: "find (\<lambda>k. id' k = d) new = Some (new ! n)" by simp_all
    from assms [OF \<open>find (\<lambda>k. id' k = s) prev = Some sk\<close> f]
    have "(new ! n)\<lparr>x := a + (a - x sk), y := y sk, visible := visible sk\<rparr> = new ! n"
      by simp
    then show ?thesis
      by (simp add: mirrorOnto_def Some \<open>find (\<lambda>k. id' k = s) prev = Some sk\<close>)
  qed
qed

lemma find_mirrorLeftToRight:
  "find (\<lambda>k. id' k = e) (mirrorLeftToRight sz kps) =
     (case map_of pairs e of
        None \<Rightarrow> find (\<lambda>k. id' k = e) kps
      | Some l \<Rightarrow>
          (case find (\<lambda>k. id' k = l) kps of
             None \<Rightarrow> find (\<lambda>k. id' k = e) kps
           | Some lk \<Rightarrow>
               map_option (\<lambda>k. k\<lparr>x := mirrorAxis sz kps + (mirrorAxis sz kps - x lk),
                                   y := y lk, visible := visible lk\<rparr>)
                 (find (\<lambda>k. id' k = e) kps)))"
  by (simp add: mirrorLeftToRight_def pairs_def find_mirrorOnto Let_def
      cong: option.case_cong if_cong)

lemma mirrorAxis_mirrorLeftToRight:
  "mirrorAxis sz (mirrorLeftToRight sz kps) = mirrorAxis sz kps"
  by (simp add: mirrorAxis_def find_mirrorLeftToRight pairs_def)

lemma foldl_fixed: "(\<And>p. p \<in> set ps \<Longrightarrow> f s p = s) \<Longrightarrow> foldl f s ps = s"
  by (induction ps) simp_all

lemma mirror_back_step:
  assumes "(r, l) \<in> set pairs"
  shows "mirrorOnto (mirrorAxis sz kps) (mirrorLeftToRight sz kps) r l (mirrorLeftToRight sz kps)
         = mirrorLeftToRight sz kps"
proof (rule mirrorOnto_fixed)
  fix sk dk
  assume sk: "find (\<lambda>k. id' k = r) (mirrorLeftToRight sz kps) = Some sk"
    and dk: "find (\<lambda>k. id' k = l) (mirrorLeftToRight sz kps) = Some dk"
  have keys: "map_of pairs r = Some l" "map_of pairs l = None"
    using assms by (auto simp: pairs_def)
  from dk have dk': "find (\<lambda>k. id' k = l) kps = Some dk"
    by (simp add: find_mirrorLeftToRight keys)
  from sk obtain rk where
    "sk = rk\<lparr>x := mirrorAxis sz kps + (mirrorAxis sz kps - x dk), y := y dk, visible := visible dk\<rparr>"
    by (auto simp: find_mirrorLeftToRight keys dk')
  then show "x dk = mirrorAxis sz kps + (mirrorAxis sz kps - x sk) \<and> y dk = y sk
             \<and> visible dk = visible sk"
    by simp
qed

lemma mirror_back_fixed:
  "mirrorRightToLeft sz (mirrorLeftToRight sz kps) = mirrorLeftToRight sz kps"
  unfolding mirrorRightToLeft_def Let_def mirrorAxis_mirrorLeftToRight
  by (rule foldl_fixed) (auto simp: mirror_back_step)

text \<open>
  C2, as the code has it, exactly over real arithmetic. Mirror left-to-right followed by
  mirror right-to-left (same canvas, so the same axis: the mirrors do not touch neck or
  nose) gives the array the first mirror gave: over the reals the second call changes
  nothing, since it writes \<open>axis + (axis - (axis + (axis - x)))\<close>, which is \<open>x\<close> there,
  onto each left joint. So for each pair (r, l) the left joint is the pre-mirror one, and
  the right joint, when the left joint \<open>lk\<close> exists, holds what the first mirror wrote:
  x reflected about the axis, y and visibility of \<open>lk\<close>. The pre-mirror coordinates of
  the right joint are overwritten, not restored. A joint is looked up by id, as the
  handlers do. In the doubles of the source the twice-reflected x of a left joint may
  differ from \<open>x\<close> by rounding; that is not part of this statement.
\<close>

theorem mirror_there_and_back:
  "keypoints (handleMirrorRightToLeft (handleMirrorLeftToRight st))
     = keypoints (handleMirrorLeftToRight st)
   \<and> ((r, l) \<in> set pairs \<longrightarrow>
        find (\<lambda>k. id' k = l) (keypoints (handleMirrorRightToLeft (handleMirrorLeftToRight st)))
          = find (\<lambda>k. id' k = l) (keypoints st))
   \<and> ((r, l) \<in> set pairs \<and> find (\<lambda>k. id' k = l) (keypoints st) = Some lk \<longrightarrow>
        find (\<lambda>k. id' k = r) (keypoints (handleMirrorRightToLeft (handleMirrorLeftToRight st)))
          = map_option
              (\<lambda>k. k\<lparr>x := mirrorAxis (size' st) (keypoints st)
                              + (mirrorAxis (size' st) (keypoints st) - x lk),
                       y := y lk, visible := visible lk\<rparr>)
              (find (\<lambda>k. id' k = r) (keypoints st)))"
proof -
  have there_back: "keypoints (handleMirrorRightToLeft (handleMirrorLeftToRight st))
              = mirrorLeftToRight (size' st) (keypoints st)"
    by (simp add: handleMirrorRightToLeft_def handleMirrorLeftToRight_def recordHistory_def
        mirror_back_fixed)
  have there: "keypoints (handleMirrorLeftToRight st) = mirrorLeftToRight (size' st) (keypoints st)"
    by (simp add: handleMirrorLeftToRight_def recordHistory_def)
  have keys: "map_of pairs r = Some l \<and> map_of pairs l = None" if "(r, l) \<in> set pairs"
    using that by (auto simp: pairs_def)
  show ?thesis
    unfolding there_back there
    by (auto simp: find_mirrorLeftToRight dest!: keys)
qed

lemma connectedLoop_unlinked: "connectedLoop [] [i] [i] 0 = [i]"
  by (subst connectedLoop.simps, simp, subst connectedLoop.simps, simp)

lemma moved_shoulder:
  "keypoints (handleKeypointMove 2 100 100 initialApp)
     = (generateFittedKeypoints 512 512)
         [2 := (generateFittedKeypoints 512 512 ! 2)\<lparr>x := 100, y := 100\<rparr>]"
  by (simp add: handleKeypointMove_def keypointMove_def connectedLoop_unlinked initial_pose_defs)

text \<open>
  The initial pose with the right shoulder dragged to (100, 100): after both mirrors the
  left shoulder is where it was and the right shoulder is its mirror image about x = 256.
\<close>

theorem mirror_there_and_back_witness:
  "keypoints (handleMirrorRightToLeft (handleMirrorLeftToRight
       (handleKeypointMove 2 100 100 initialApp)))
     = keypoints (handleMirrorLeftToRight (handleKeypointMove 2 100 100 initialApp))
   \<and> find (\<lambda>k. id' k = 5) (keypoints (handleMirrorRightToLeft (handleMirrorLeftToRight
       (handleKeypointMove 2 100 100 initialApp))))
     = Some (generateFittedKeypoints 512 512 ! 5)
   \<and> find (\<lambda>k. id' k = 2) (keypoints (handleMirrorRightToLeft (handleMirrorLeftToRight
       (handleKeypointMove 2 100 100 initialApp))))
     = Some ((generateFittedKeypoints 512 512 ! 2)\<lparr>x := 8576 / 41, y := 5312 / 41\<rparr>)"
proof -
  let ?st = "handleKeypointMove 2 100 100 initialApp"
  have pair: "(2, 5) \<in> set pairs"
    by (simp add: pairs_def)
  have left: "find (\<lambda>k. id' k = 5) (keypoints ?st) = Some (generateFittedKeypoints 512 512 ! 5)"
    by (simp add: moved_shoulder initial_pose)
  have right: "find (\<lambda>k. id' k = 2) (keypoints ?st)
               = Some ((generateFittedKeypoints 512 512 ! 2)\<lparr>x := 100, y := 100\<rparr>)"
    by (simp add: moved_shoulder initial_pose)
  have axis: "mirrorAxis (size' ?st) (keypoints ?st) = 256"
    by (simp add: mirrorAxis_def moved_shoulder initial_pose)
  note t = mirror_there_and_back [of ?st 2 5 "generateFittedKeypoints 512 512 ! 5"]
  from t have c1: "keypoints (handleMirrorRightToLeft (handleMirrorLeftToRight ?st))
      = keypoints (handleMirrorLeftToRight ?st)"
    by (rule conjunct1)
  from t pair have c2: "find (\<lambda>k. id' k = 5)
      (keypoints (handleMirrorRightToLeft (handleMirrorLeftToRight ?st)))
      = find (\<lambda>k. id' k = 5) (keypoints ?st)"
    by blast
  from t pair left have c3: "find (\<lambda>k. id' k = 2)
      (keypoints (handleMirrorRightToLeft (handleMirrorLeftToRight ?st)))
      = map_option
          (\<lambda>k. k\<lparr>x := mirrorAxis (size' ?st) (keypoints ?st)
                          + (mirrorAxis (size' ?st) (keypoints ?st)
                             - x (generateFittedKeypoints 512 512 ! 5)),
                   y := y (generateFittedKeypoints 512 512 ! 5),
                   visible := visible (generateFittedKeypoints 512 512 ! 5)\<rparr>)
          (find (\<lambda>k. id' k = 2) (keypoints ?st))"
    by blast
  have c3': "find (\<lambda>k. id' k = 2)
      (keypoints (handleMirrorRightToLeft (handleMirrorLeftToRight ?st)))
      = Some ((generateFittedKeypoints 512 512 ! 2)\<lparr>x := 8576 / 41, y := 5312 / 41\<rparr>)"
    unfolding c3 axis right by (simp add: initial_pose)
  show ?thesis
    using c1 c2 c3' left by (simp only: simp_thms)
qed

lemma moved_shoulder_size: "size' (handleKeypointMove 2 100 100 initialApp) = \<lparr>width = 512, height = 512\<rparr>"
  by (simp add: handleKeypointMove_def initialApp_def)

text \<open>
  The claim as stated fails: the right shoulder dragged to x = 100 is not back at
  x = 100 after the two mirrors, it is at 8576 / 41.
\<close>

theorem mirror_counterexample:
  "x (keypoints (handleKeypointMove 2 100 100 initialApp) ! 2) = 100
   \<and> x (keypoints (handleMirrorRightToLeft (handleMirrorLeftToRight
           (handleKeypointMove 2 100 100 initialApp))) ! 2) = 8576 / 41"
  by (simp add: handleMirrorRightToLeft_def handleMirrorLeftToRight_def recordHistory_def
      mirrorRightToLeft_def mirrorLeftToRight_def mirrorAxis_def mirrorOnto_def pairs_def
      moved_shoulder moved_shoulder_size initial_pose)

section \<open>The 18 joints stay in place\<close>

lemma map_indexed_ids:
  assumes "\<And>p. id' (f p) = id' (fst p)"
  shows "map (id' \<circ> f) (zip kps [0 ..< length kps]) = map id' kps"
  by (rule nth_equalityI) (simp_all add: assms)

lemma keypointMove_ids: "map id' (keypointMove cs mode i tx ty prev) = map id' prev"
  by (simp add: keypointMove_def Let_def split: option.splits)

lemma toggleVisibility_ids: "map id' (toggleVisibility i prev) = map id' prev"
  by (simp add: toggleVisibility_def Let_def split: option.splits)

lemma importKeypoints_ids: "map id' (importKeypoints kpArray kps) = map id' kps"
  by (auto simp: importKeypoints_def Let_def intro!: map_indexed_ids split: option.splits)

lemma mirrorOnto_ids: "map id' (mirrorOnto a prev s d new) = map id' new"
proof -
  have "map id' (xs[n := (xs ! n)\<lparr>x := vx, y := vy, visible := vv\<rparr>]) = map id' xs"
    for xs :: "keypoint list" and n vx vy vv
    by (cases "n < length xs") (simp_all add: map_update list_update_same_conv list_update_beyond)
  then show ?thesis
    by (simp add: mirrorOnto_def split: option.splits)
qed

lemma mirrorLeftToRight_ids: "map id' (mirrorLeftToRight sz prev) = map id' prev"
  by (simp add: mirrorLeftToRight_def pairs_def mirrorOnto_ids Let_def)

lemma mirrorRightToLeft_ids: "map id' (mirrorRightToLeft sz prev) = map id' prev"
  by (simp add: mirrorRightToLeft_def pairs_def mirrorOnto_ids Let_def)

lemma recordHistory_poseOk: "poseOk st \<Longrightarrow> poseOk (recordHistory st)"
  by (simp add: poseOk_def recordHistory_def)

lemma poseOk_keypoints_update:
  "poseOk st \<Longrightarrow> idsOk kps \<Longrightarrow> poseOk (st\<lparr>keypoints := kps\<rparr>)"
  by (simp add: poseOk_def)

lemma poseOk_recorded_update:
  "poseOk st \<Longrightarrow> map id' kps = map id' (keypoints st)
     \<Longrightarrow> poseOk ((recordHistory st)\<lparr>keypoints := kps\<rparr>)"
  by (simp add: poseOk_def recordHistory_def idsOk_def)

lemma initialApp_poseOk: "poseOk initialApp"
  by (simp add: poseOk_def idsOk_def initialApp_def initial_pose_ids)

lemma undo_poseOk: "poseOk st \<Longrightarrow> poseOk (undo st)"
proof -
  assume ok: "poseOk st"
  show ?thesis
  proof (cases "past (history st)" rule: rev_cases)
    case Nil
    then show ?thesis using ok by (simp add: undo_def)
  next
    case (snoc ps p)
    then show ?thesis using ok by (simp add: undo_def poseOk_def Let_def)
  qed
qed

lemma redo_poseOk: "poseOk st \<Longrightarrow> poseOk (redo st)"
proof -
  assume ok: "poseOk st"
  show ?thesis
  proof (cases "future (history st)")
    case Nil
    then show ?thesis using ok by (simp add: redo_def)
  next
    case (Cons f fs)
    then show ?thesis using ok by (simp add: redo_def poseOk_def Let_def)
  qed
qed

lemma handleImportJson_poseOk: "poseOk st \<Longrightarrow> poseOk (fst (handleImportJson parsed st))"
  by (auto simp: handleImportJson_def Let_def poseOk_def idsOk_def recordHistory_def
      importKeypoints_ids split: option.splits)

lemma handleAutoDetect_poseOk: "poseOk st \<Longrightarrow> poseOk (fst (handleAutoDetect outcome st))"
proof -
  have ids: "map (id' \<circ> (\<lambda>(kp, n). kp\<lparr>x := fst (pts ! n), y := snd (pts ! n), visible := True\<rparr>))
               (zip kps [0 ..< length kps]) = map id' kps"
    for pts :: "(real \<times> real) list" and kps :: "keypoint list"
    by (rule map_indexed_ids) (simp add: split_beta)
  show "poseOk st \<Longrightarrow> poseOk (fst (handleAutoDetect outcome st))"
    by (auto simp: handleAutoDetect_def Let_def poseOk_def idsOk_def recordHistory_def ids
        split: option.splits DetectOutcome.splits)
qed

lemma handleScale_poseOk: "poseOk st \<Longrightarrow> poseOk (handleScale factor st)"
  by (auto simp: handleScale_def poseOk_def idsOk_def comp_def split: option.splits prod.splits)

lemma handleTransform_poseOk: "poseOk st \<Longrightarrow> poseOk (handleTransform rotateZ scaleX st)"
  by (auto simp: handleTransform_def poseOk_def idsOk_def comp_def Let_def
      split: option.splits prod.splits)

text \<open>
  C10. Let every keypoint array the state holds (the current one, the base of a running
  gesture, the history entries) be the 18 joints with ids 0..17 in order. Then after any
  operation of the editor (drags, toggles, mirror, flip, scale, rotate and width
  transform, reset, import, detection, also undo and redo) the same holds, and the
  current array has the ids 0..17 in order: no joint is added, removed or moved to
  another place.
\<close>

theorem pose_ids_preserved:
  assumes "poseOk st"
  shows "poseOk (perform op st) \<and> map id' (keypoints (perform op st)) = [0 ..< 18]"
proof -
  have "poseOk (perform op st)"
  proof (cases op)
    case DragStart
    then show ?thesis using assms by (simp add: handleDragStart_def recordHistory_poseOk)
  next
    case (KeypointMove i tx ty)
    then show ?thesis using assms
      by (simp add: handleKeypointMove_def poseOk_def idsOk_def keypointMove_ids)
  next
    case (SkeletonDrag dx dy)
    then show ?thesis using assms
      by (simp add: handleSkeletonDrag_def poseOk_def idsOk_def comp_def)
  next
    case (ToggleConstraint p1 p2)
    then show ?thesis using assms
      by (simp add: handleToggleConstraint_def poseOk_def recordHistory_def Let_def)
  next
    case (ToggleVisibility i)
    then show ?thesis using assms
      by (simp add: handleToggleVisibility_def poseOk_recorded_update toggleVisibility_ids)
  next
    case (ToggleLock i)
    then show ?thesis using assms
      by (simp add: handleToggleLock_def poseOk_recorded_update comp_def if_distrib cong: if_cong)
  next
    case (ToggleAnchor i)
    then show ?thesis using assms
      by (simp add: handleToggleAnchor_def poseOk_recorded_update comp_def if_distrib cong: if_cong)
  next
    case ToggleAllLock
    then show ?thesis using assms
      by (simp add: handleToggleAllLock_def poseOk_recorded_update comp_def Let_def)
  next
    case ToggleAllVisibility
    then show ?thesis using assms
      by (simp add: handleToggleAllVisibility_def poseOk_recorded_update comp_def Let_def)
  next
    case Reset
    then show ?thesis using assms
      by (simp add: handleReset_def poseOk_def idsOk_def recordHistory_def initial_pose_ids)
  next
    case (ImportJson parsed)
    then show ?thesis using assms by (simp add: handleImportJson_poseOk)
  next
    case (AutoDetect outcome)
    then show ?thesis using assms by (simp add: handleAutoDetect_poseOk)
  next
    case FlipHorizontal
    then show ?thesis using assms
      by (simp add: handleFlipHorizontal_def poseOk_recorded_update comp_def Let_def)
  next
    case FlipVertical
    then show ?thesis using assms
      by (simp add: handleFlipVertical_def poseOk_recorded_update comp_def Let_def)
  next
    case MirrorLeftToRight
    then show ?thesis using assms
      by (simp add: handleMirrorLeftToRight_def poseOk_recorded_update mirrorLeftToRight_ids)
  next
    case MirrorRightToLeft
    then show ?thesis using assms
      by (simp add: handleMirrorRightToLeft_def poseOk_recorded_update mirrorRightToLeft_ids)
  next
    case ScaleStart
    then show ?thesis using assms
      by (simp add: handleScaleStart_def poseOk_def recordHistory_def)
  next
    case (Scale factor)
    then show ?thesis using assms by (simp add: handleScale_poseOk)
  next
    case TransformStart
    then show ?thesis using assms
      by (simp add: handleTransformStart_def poseOk_def recordHistory_def)
  next
    case (Transform rotateZ scaleX)
    then show ?thesis using assms by (simp add: handleTransform_poseOk)
  next
    case TransformEnd
    then show ?thesis using assms
      by (simp add: handleTransformEnd_def poseOk_def)
  next
    case Undo
    then show ?thesis using assms by (simp add: undo_poseOk)
  next
    case Redo
    then show ?thesis using assms by (simp add: redo_poseOk)
  qed
  then show ?thesis
    by (simp add: poseOk_def idsOk_def)
qed

text \<open>
  The initial state is in order; so is the state after a drag, a mirror and the import
  of a three-number array.
\<close>

theorem pose_ids_preserved_witness:
  "poseOk (perform (ImportJson
      (Some \<lparr>people = Some [\<lparr>pose_keypoints_2d = Some [10, 20, 1]\<rparr>], canvas_config = None\<rparr>))
      (perform MirrorLeftToRight (perform (KeypointMove 2 100 100) initialApp)))
   \<and> map id' (keypoints (perform (ImportJson
      (Some \<lparr>people = Some [\<lparr>pose_keypoints_2d = Some [10, 20, 1]\<rparr>], canvas_config = None\<rparr>))
      (perform MirrorLeftToRight (perform (KeypointMove 2 100 100) initialApp))))
     = [0 ..< 18]"
proof -
  have "poseOk (perform (KeypointMove 2 100 100) initialApp)"
    using pose_ids_preserved [OF initialApp_poseOk] by (rule conjunct1)
  then have "poseOk (perform MirrorLeftToRight (perform (KeypointMove 2 100 100) initialApp))"
    using pose_ids_preserved by blast
  from pose_ids_preserved [OF this] show ?thesis
    by blast
qed

section \<open>Translate-mode drag\<close>

lemma visitKey_step:
  "\<exists>m. visitKey u (c, q) (p1, p2) = (c @ m, q @ m)
       \<and> set m = {n. (u, n) \<in> linked [((p1, p2), d)]} - set c"
proof (cases "p1 = u \<or> p2 = u")
  case False
  then have "visitKey u (c, q) (p1, p2) = (c @ [], q @ [])"
    and "{n. (u, n) \<in> linked [((p1, p2), d)]} = {}"
    by (auto simp: visitKey_def linked_def)
  then show ?thesis by (intro exI [of _ "[]"]) simp
next
  case True
  let ?n = "if p1 = u then p2 else p1"
  have nb: "{n. (u, n) \<in> linked [((p1, p2), d)]} = {?n}"
    using True by (auto simp: linked_def)
  show ?thesis
  proof (cases "?n \<in> set c")
    case True
    with \<open>p1 = u \<or> p2 = u\<close> have "visitKey u (c, q) (p1, p2) = (c @ [], q @ [])"
      by (simp add: visitKey_def Let_def)
    then show ?thesis using True nb by (intro exI [of _ "[]"]) auto
  next
    case False
    with \<open>p1 = u \<or> p2 = u\<close> have "visitKey u (c, q) (p1, p2) = (c @ [?n], q @ [?n])"
      by (simp add: visitKey_def Let_def)
    then show ?thesis using False nb by (intro exI [of _ "[?n]"]) auto
  qed
qed

lemma linked_Cons: "linked (e # cs) = linked [e] \<union> linked cs"
  by (auto simp: linked_def)

lemma visitKey_fold:
  "foldl (visitKey u) (c, q) (map fst cs) = (c', q')
     \<Longrightarrow> \<exists>ns. c' = c @ ns \<and> q' = q @ ns \<and> set ns = {n. (u, n) \<in> linked cs} - set c"
proof (induction cs arbitrary: c q)
  case Nil
  then show ?case by (simp add: linked_def)
next
  case (Cons e cs)
  obtain p1 p2 d where e: "e = ((p1, p2), d)" by (cases e) auto
  from visitKey_step [of u c q p1 p2 d] obtain m where
    m: "visitKey u (c, q) (p1, p2) = (c @ m, q @ m)"
    and sm: "set m = {n. (u, n) \<in> linked [e]} - set c"
    unfolding e by blast
  from Cons.prems have "foldl (visitKey u) (c @ m, q @ m) (map fst cs) = (c', q')"
    by (simp add: e m)
  from Cons.IH [OF this] obtain ns where ns: "c' = (c @ m) @ ns" "q' = (q @ m) @ ns"
    "set ns = {n. (u, n) \<in> linked cs} - set (c @ m)"
    by blast
  have "set (m @ ns) = {n. (u, n) \<in> linked (e # cs)} - set c"
    using sm ns(3) by (auto simp: linked_Cons [of e cs])
  then show ?case
    using ns(1,2) by (intro exI [of _ "m @ ns"]) simp
qed

text \<open>
  The search loop computes the component: every joint in the queue is reachable from
  \<open>i\<close>, and the neighbours of every joint already visited are in the queue.
\<close>

lemma connectedLoop_component:
  assumes "c = q" "h \<le> length q" "i \<in> set q"
    and "\<forall>n \<in> set q. (i, n) \<in> (linked cs)\<^sup>*"
    and "\<forall>m < h. \<forall>n. (q ! m, n) \<in> linked cs \<longrightarrow> n \<in> set q"
  shows "set (connectedLoop cs c q h) = component cs i"
  using assms
proof (induction cs c q h rule: connectedLoop.induct)
  case (1 cs c q h)
  show ?case
  proof (cases "h < length q")
    case False
    with "1.prems" have h: "h = length q" by simp
    have closed: "b \<in> set q" if "a \<in> set q" "(a, b) \<in> linked cs" for a b
    proof -
      from that(1) obtain m where "m < length q" "q ! m = a"
        by (auto simp: in_set_conv_nth)
      with "1.prems"(5) h that(2) show ?thesis by auto
    qed
    have "j \<in> set q" if "(i, j) \<in> (linked cs)\<^sup>*" for j
      using that
    proof (induction rule: rtrancl_induct)
      case base
      show ?case using "1.prems"(3) .
    next
      case (step a b)
      then show ?case using closed by blast
    qed
    then have "set q = component cs i"
      using "1.prems"(4) by (auto simp: component_def)
    moreover have "connectedLoop cs c q h = c"
      using False by (subst connectedLoop.simps) simp
    ultimately show ?thesis
      using "1.prems"(1) by simp
  next
    case True
    obtain c' q' where f: "foldl (visitKey (q ! h)) (c, q) (map fst cs) = (c', q')"
      by (cases "foldl (visitKey (q ! h)) (c, q) (map fst cs)")
    from visitKey_fold [OF f] obtain ns where ns: "c' = c @ ns" "q' = q @ ns"
      "set ns = {n. (q ! h, n) \<in> linked cs} - set c"
      by blast
    have unfold: "connectedLoop cs c q h = connectedLoop cs c' q' (Suc h)"
      using True f by (subst connectedLoop.simps) simp
    have p1: "c' = q'" using ns "1.prems"(1) by simp
    have p2: "Suc h \<le> length q'" using True ns by simp
    have p3: "i \<in> set q'" using "1.prems"(3) ns by simp
    have reach_h: "(i, q ! h) \<in> (linked cs)\<^sup>*"
      using "1.prems"(4) True by simp
    have p4: "\<forall>n \<in> set q'. (i, n) \<in> (linked cs)\<^sup>*"
    proof
      fix n assume "n \<in> set q'"
      then consider "n \<in> set q" | "n \<in> set ns" using ns by auto
      then show "(i, n) \<in> (linked cs)\<^sup>*"
      proof cases
        case 1
        then show ?thesis using "1.prems"(4) by simp
      next
        case 2
        then have "(q ! h, n) \<in> linked cs" using ns(3) by auto
        with reach_h show ?thesis by (rule rtrancl_into_rtrancl)
      qed
    qed
    have p5: "\<forall>m < Suc h. \<forall>n. (q' ! m, n) \<in> linked cs \<longrightarrow> n \<in> set q'"
    proof (intro allI impI)
      fix m n assume m: "m < Suc h" and l: "(q' ! m, n) \<in> linked cs"
      have qm: "q' ! m = q ! m"
        using m True ns by (simp add: nth_append)
      show "n \<in> set q'"
      proof (cases "m < h")
        case True
        then show ?thesis using "1.prems"(5) l qm ns by auto
      next
        case False
        with m have "m = h" by simp
        then have "n \<in> set c \<or> n \<in> set ns" using l qm ns(3) by auto
        then show ?thesis using ns "1.prems"(1) by auto
      qed
    qed
    from "1.IH" [OF True f [symmetric] p1 p2 p3 p4 p5] unfold
    show ?thesis by simp
  qed
qed

lemma connectedIds_component: "set (connectedLoop cs [i] [i] 0) = component cs i"
  by (rule connectedLoop_component) simp_all

lemma translated_distance:
  "distance (a\<lparr>x := x a + dx, y := y a + dy\<rparr>) (b\<lparr>x := x b + dx, y := y b + dy\<rparr>) = distance a b"
  by (simp add: distance_def)

text \<open>
  C6. In translate mode, dragging an existing joint \<open>i\<close> by (dx, dy), that is to its
  position plus (dx, dy), adds (dx, dy) to the coordinates of every joint whose id is in
  the connected component of \<open>i\<close> under the active constraints, leaves every other
  joint as it was, and keeps the distance between any two joints of the component.
\<close>

theorem translate_moves_component:
  assumes "lockedJointMode st = translate"
    and "find (\<lambda>k. id' k = i) (keypoints st) = Some dragged"
  shows "keypoints (handleKeypointMove i (x dragged + dx) (y dragged + dy) st) =
           map (\<lambda>kp. if id' kp \<in> component (constraints st) i
                      then kp\<lparr>x := x kp + dx, y := y kp + dy\<rparr> else kp) (keypoints st)
       \<and> (\<forall>n m. n < length (keypoints st) \<and> m < length (keypoints st)
              \<and> id' (keypoints st ! n) \<in> component (constraints st) i
              \<and> id' (keypoints st ! m) \<in> component (constraints st) i \<longrightarrow>
            distance (keypoints (handleKeypointMove i (x dragged + dx) (y dragged + dy) st) ! n)
                     (keypoints (handleKeypointMove i (x dragged + dx) (y dragged + dy) st) ! m)
              = distance (keypoints st ! n) (keypoints st ! m))"
proof -
  have res: "keypoints (handleKeypointMove i (x dragged + dx) (y dragged + dy) st) =
           map (\<lambda>kp. if id' kp \<in> component (constraints st) i
                      then kp\<lparr>x := x kp + dx, y := y kp + dy\<rparr> else kp) (keypoints st)"
    using assms
    by (simp add: handleKeypointMove_def keypointMove_def connectedIds_component)
  show ?thesis
    unfolding res by (simp add: translated_distance)
qed

lemma locked_limb_connected:
  "connectedLoop [((Suc 0, 2), d)] [2] [2] 0 = [2, Suc 0]"
  by (subst connectedLoop.simps, simp add: visitKey_def,
      subst connectedLoop.simps, simp add: visitKey_def,
      subst connectedLoop.simps, simp)

text \<open>
  The initial pose with limb 1-2 locked: dragging the right shoulder by (10, 5) moves
  neck and right shoulder by (10, 5) and nothing else.
\<close>

theorem translate_moves_component_witness:
  "map (\<lambda>k. (x k, y k))
     (keypoints (handleKeypointMove 2 (x (generateFittedKeypoints 512 512 ! 2) + 10)
                   (y (generateFittedKeypoints 512 512 ! 2) + 5)
                   (handleToggleConstraint 1 2 initialApp)))
   = [(256, 3008 / 41), (266, 5517 / 41), (8986 / 41, 5517 / 41), (7808 / 41, 8384 / 41),
      (7040 / 41, 10688 / 41), (12416 / 41, 5312 / 41), (13184 / 41, 8384 / 41),
      (13952 / 41, 10688 / 41), (9344 / 41, 10688 / 41), (9344 / 41, 14528 / 41),
      (9344 / 41, 448), (11648 / 41, 10688 / 41), (11648 / 41, 14528 / 41), (11648 / 41, 448),
      (10112 / 41, 64), (10880 / 41, 64), (9344 / 41, 2816 / 41), (11648 / 41, 2816 / 41)]"
proof -
  let ?st = "handleToggleConstraint 1 2 initialApp"
  let ?k = "generateFittedKeypoints 512 512"
  have mode: "lockedJointMode ?st = translate"
    by (simp add: handleToggleConstraint_def recordHistory_def initialApp_def Let_def)
  have dragged: "find (\<lambda>k. id' k = 2) (keypoints ?st) = Some (?k ! 2)"
    by (simp add: locked_limb_keypoints initial_pose)
  have comp: "component (constraints ?st) 2 = {2, 1}"
    by (simp add: locked_limb connectedIds_component [symmetric] locked_limb_connected)
  note t = translate_moves_component [OF mode dragged, of 10 5, THEN conjunct1]
  show ?thesis
    unfolding t comp by (simp add: locked_limb_keypoints initial_pose)
qed

end
